theory Spec2Isabelle
  imports Complex_Main
begin

section \<open>The Modal component (src/components/Modal.tsx)\<close>

text \<open>
  The component is a React function component. Its hooks are modelled as the fields of
  one state record, a render of the component as a function on that state, and what the
  outside world does (the owner rendering it, touches, the hardware back button, the end
  of an animation, the unmount) as events of a step function.

  What the model takes from React and React Native:
  \<^item> a call of a state setter during the render makes React render again before anything
    is committed;
  \<^item> the effects of a committed render run after it, in the order in which the component
    declares them; an effect with a dependency array runs again (its cleanup first) only
    when a dependency changed;
  \<^item> \<open>useCallback\<close> returns the same function as long as its dependencies are equal, so a
    memoised function is represented by the values it closes over;
  \<^item> one \<open>Animated.Value\<close> runs at most one animation: starting another one stops the
    running one, whose completion callback is then called with \<open>finished = false\<close>;
  \<^item> a state update is followed by the render it causes, and a render by its effects,
    before the next event arrives.
\<close>

subsection \<open>Data\<close>

datatype easing_fn = Easing_cubic | Easing_out easing_fn

text \<open>The configuration object passed to \<open>Animated.timing\<close>.\<close>

record timing_config =
  toValue :: real
  duration :: real
  easing :: easing_fn
  useNativeDriver :: bool

text \<open>
  The argument of \<open>start\<close>: \<open>showModal\<close> passes none, \<open>hideModal\<close> passes the function of
  lines 87 to 92.
\<close>

datatype end_callback = No_callback | Hide_callback

record timing_animation =
  config :: timing_config
  callback :: end_callback

text \<open>
  The \<open>Animated.Value\<close> held in \<open>opacity\<close>. \<open>current\<close> is its value when that is known:
  the initial value, or the end value of an animation that ran to its end. An animation
  stopped in flight leaves a value between its end points, which is \<open>None\<close> here.
  \<open>anim\<close> is the animation in flight.
\<close>

record animated_value =
  current :: "real option"
  anim :: "timing_animation option"

text \<open>
  The props after the defaults of the parameter list, with \<open>theme.animation.scale\<close>. The
  props that only reach the rendered elements (children, styles, labels, test ids) are
  left out.
\<close>

record props =
  dismissable :: bool
  dismissableBackButton :: bool
  visible :: bool
  scale :: real

text \<open>
  \<open>hideModal\<close> as a value: the \<open>rendered\<close> and \<open>scale\<close> of the render that created it
  (its other dependencies, \<open>opacity\<close> and \<open>onDismissCallback\<close>, never change).
\<close>

record hideModal_closure =
  hm_rendered :: bool
  hm_scale :: real

text \<open>\<open>onHardwareBackPress\<close> as a value: what the function of lines 100 to 105 closes over.\<close>

record backPress_closure =
  bp_dismissable :: bool
  bp_dismissableBackButton :: bool
  bp_hideModal :: hideModal_closure

datatype pointer_events = Pointer_auto | Pointer_none

text \<open>
  What the render returns when it does not return \<open>null\<close>: the attributes of the outer
  \<open>Animated.View\<close> and of the backdrop that decide the behaviour.
\<close>

record element =
  pointerEvents :: pointer_events
  onAccessibilityEscape :: hideModal_closure
  disabled :: bool
  onPress :: "hideModal_closure option"

text \<open>The calls the component makes to the outside, in the order it makes them.\<close>

datatype call = Timing_start timing_animation | OnDismiss

record state =
  props :: props
  mounted :: bool
  rendered :: bool
  visibleRef :: bool
  prevVisible :: "bool option"
  opacity :: animated_value
  subscription :: "backPress_closure option"
  tree :: "element option"
  calls :: "call list"

text \<open>
  \<open>AnimationEnd r\<close>: the animation in flight reaches its end. Where that calls the owner's
  \<open>onDismiss\<close>, \<open>r\<close> is what the owner does in it: nothing (\<open>None\<close>, the default
  \<open>() => {}\<close>) or an update of its own state that renders the component with new props.
\<close>

datatype event =
  Owner_render props
  | BackdropPress
  | HardwareBackPress
  | AccessibilityEscape
  | AnimationEnd "props option"
  | Unmount

subsection \<open>The animation\<close>

definition DEFAULT_DURATION :: real where
  "DEFAULT_DURATION = 220"

text \<open>
  The function given to \<open>start\<close> by \<open>hideModal\<close> (lines 87 to 92). A state setter of a
  component that is no longer mounted does nothing.
\<close>

definition run_callback :: "end_callback \<Rightarrow> bool \<Rightarrow> state \<Rightarrow> state" where
  "run_callback cb finished s =
     (case cb of
        No_callback \<Rightarrow> s
      | Hide_callback \<Rightarrow>
          if finished then
            (let s1 = s\<lparr>calls := calls s @ [OnDismiss]\<rparr>
             in if mounted s1 then s1\<lparr>rendered := False\<rparr> else s1)
          else s)"

text \<open>\<open>Animated.timing(opacity, config).start(callback)\<close>.\<close>

definition timing_start :: "timing_animation \<Rightarrow> state \<Rightarrow> state" where
  "timing_start a s =
     (let s1 = (case anim (opacity s) of
                  None \<Rightarrow> s
                | Some old \<Rightarrow>
                    run_callback (callback old) False
                      (s\<lparr>opacity := \<lparr>current = None, anim = None\<rparr>\<rparr>))
      in s1\<lparr>opacity := (opacity s1)\<lparr>anim := Some a\<rparr>,
            calls := calls s1 @ [Timing_start a]\<rparr>)"

text \<open>Lines 67 to 74.\<close>

definition showModal :: "real \<Rightarrow> state \<Rightarrow> state" where
  "showModal sc s =
     timing_start
       \<lparr>config = \<lparr>toValue = 1, duration = sc * DEFAULT_DURATION,
                  easing = Easing_out Easing_cubic, useNativeDriver = True\<rparr>,
        callback = No_callback\<rparr> s"

text \<open>Lines 76 to 93.\<close>

definition hideModal :: "hideModal_closure \<Rightarrow> state \<Rightarrow> state" where
  "hideModal c s =
     (if \<not> hm_rendered c then s
      else if \<not> visibleRef s then s
      else
        timing_start
          \<lparr>config = \<lparr>toValue = 0, duration = hm_scale c * DEFAULT_DURATION,
                     easing = Easing_out Easing_cubic, useNativeDriver = True\<rparr>,
           callback = Hide_callback\<rparr>
          (s\<lparr>visibleRef := False\<rparr>))"

subsection \<open>The render\<close>

definition hideModal_of :: "state \<Rightarrow> hideModal_closure" where
  "hideModal_of s = \<lparr>hm_rendered = rendered s, hm_scale = scale (props s)\<rparr>"

text \<open>Lines 129 to 173: \<open>None\<close> is the \<open>null\<close> of line 129.\<close>

definition render_result :: "state \<Rightarrow> element option" where
  "render_result s =
     (if \<not> rendered s then None
      else Some
        \<lparr>pointerEvents = (if visible (props s) then Pointer_auto else Pointer_none),
         onAccessibilityEscape = hideModal_of s,
         disabled = (\<not> dismissable (props s) \<or> \<not> rendered s),
         onPress = (if dismissable (props s) \<and> rendered s then Some (hideModal_of s)
                    else None)\<rparr>)"

text \<open>
  The render with its state update of lines 63 to 65: a render that calls
  \<open>setRendered(true)\<close> is thrown away and the component renders again with the new state.
\<close>

definition Modal_render :: "state \<Rightarrow> state" where
  "Modal_render s =
     (let s1 = (if visible (props s) \<and> \<not> rendered s then s\<lparr>rendered := True\<rparr> else s)
      in s1\<lparr>tree := render_result s1\<rparr>)"

subsection \<open>The effects\<close>

text \<open>Lines 53 to 55.\<close>

definition effect_visibleRef :: "state \<Rightarrow> state" where
  "effect_visibleRef s = s\<lparr>visibleRef := visible (props s)\<rparr>"

text \<open>The dependency array of line 114.\<close>

type_synonym backHandler_deps = "bool \<times> bool \<times> hideModal_closure \<times> bool"

definition deps_of :: "state \<Rightarrow> backHandler_deps" where
  "deps_of s =
     (dismissable (props s), dismissableBackButton (props s), hideModal_of s,
      visible (props s))"

text \<open>Lines 100 to 105, as the function and as the value registered with \<open>BackHandler\<close>.\<close>

definition onHardwareBackPress :: "backPress_closure \<Rightarrow> state \<Rightarrow> bool \<times> state" where
  "onHardwareBackPress h s =
     (True,
      if bp_dismissable h \<or> bp_dismissableBackButton h then hideModal (bp_hideModal h) s
      else s)"

definition onHardwareBackPress_of :: "state \<Rightarrow> backPress_closure" where
  "onHardwareBackPress_of s =
     \<lparr>bp_dismissable = dismissable (props s),
      bp_dismissableBackButton = dismissableBackButton (props s),
      bp_hideModal = hideModal_of s\<rparr>"

text \<open>
  Lines 95 to 114. \<open>prev\<close> holds the dependencies of the last committed render, \<open>None\<close> at
  the first one. When the effect runs again, the cleanup of its last run (line 113) comes
  first.
\<close>

definition effect_backHandler :: "backHandler_deps option \<Rightarrow> state \<Rightarrow> state" where
  "effect_backHandler prev s =
     (if prev = Some (deps_of s) then s
      else
        (let s1 = s\<lparr>subscription := None\<rparr>
         in if \<not> visible (props s1) then s1
            else s1\<lparr>subscription := Some (onHardwareBackPress_of s1)\<rparr>))"

text \<open>Lines 116 to 127.\<close>

definition effect_prevVisible :: "state \<Rightarrow> state" where
  "effect_prevVisible s =
     (let s1 = (if prevVisible s \<noteq> Some (visible (props s)) then
                  (if visible (props s) then showModal (scale (props s)) s
                   else hideModal (hideModal_of s) s)
                else s)
      in s1\<lparr>prevVisible := Some (visible (props s1))\<rparr>)"

text \<open>A render that is committed, followed by its effects in the order of the source.\<close>

definition commit :: "backHandler_deps option \<Rightarrow> state \<Rightarrow> state" where
  "commit prev s =
     effect_prevVisible (effect_backHandler prev (effect_visibleRef (Modal_render s)))"

subsection \<open>The life of a component\<close>

text \<open>
  The first render: the initial values of the hooks (lines 51, 60, 61 and 116), and the
  first commit.
\<close>

definition mount :: "props \<Rightarrow> state" where
  "mount p =
     commit None
       \<lparr>props = p, mounted = True, rendered = visible p, visibleRef = visible p,
        prevVisible = None,
        opacity = \<lparr>current = Some (if visible p then 1 else 0), anim = None\<rparr>,
        subscription = None, tree = None, calls = []\<rparr>"

text \<open>
  A press on the backdrop reaches \<open>onPress\<close> only through the committed elements: the
  outer view must take pointer input and the backdrop must not be disabled.
\<close>

definition backdrop_press :: "state \<Rightarrow> state" where
  "backdrop_press s =
     (case tree s of
        None \<Rightarrow> s
      | Some el \<Rightarrow>
          if pointerEvents el = Pointer_none \<or> disabled el then s
          else (case onPress el of None \<Rightarrow> s | Some c \<Rightarrow> hideModal c s))"

definition accessibility_escape :: "state \<Rightarrow> state" where
  "accessibility_escape s =
     (case tree s of None \<Rightarrow> s | Some el \<Rightarrow> hideModal (onAccessibilityEscape el) s)"

text \<open>
  The back button: the registered listener is called and its result says whether the
  signal was consumed. Without a listener of this component the signal is not consumed.
\<close>

definition hardware_back_press :: "state \<Rightarrow> bool \<times> state" where
  "hardware_back_press s =
     (case subscription s of None \<Rightarrow> (False, s) | Some h \<Rightarrow> onHardwareBackPress h s)"

text \<open>
  The animation in flight ends: the value is at \<open>toValue\<close>, the callback is called with
  \<open>finished = true\<close>, and where that changed the state or made the owner render, the
  component renders.
\<close>

definition animation_end :: "props option \<Rightarrow> state \<Rightarrow> state" where
  "animation_end r s =
     (case anim (opacity s) of
        None \<Rightarrow> s
      | Some a \<Rightarrow>
          (let s1 = run_callback (callback a) True
                      (s\<lparr>opacity := \<lparr>current = Some (toValue (config a)), anim = None\<rparr>\<rparr>);
               r1 = (case callback a of No_callback \<Rightarrow> None | Hide_callback \<Rightarrow> r);
               s2 = (case r1 of None \<Rightarrow> s1 | Some p \<Rightarrow> s1\<lparr>props := p\<rparr>)
           in if \<not> mounted s then s1
              else if rendered s2 = rendered s \<and> r1 = None then s2
              else commit (Some (deps_of s)) s2))"

text \<open>
  The unmount runs the cleanup of the effect (line 113) and removes the elements. With its
  last view gone the \<open>Animated.Value\<close> is detached, which stops the animation in flight:
  its callback is called with \<open>finished = false\<close>.
\<close>

definition unmount :: "state \<Rightarrow> state" where
  "unmount s =
     (let s1 = (case anim (opacity s) of
                  None \<Rightarrow> s
                | Some old \<Rightarrow>
                    run_callback (callback old) False
                      (s\<lparr>opacity := \<lparr>current = None, anim = None\<rparr>\<rparr>))
      in s1\<lparr>mounted := False, subscription := None, tree := None\<rparr>)"

text \<open>
  The events. Once the component is unmounted nothing reaches it any more; the unmount
  has stopped the animation, so there is none in flight whose end could come.
\<close>

fun step :: "event \<Rightarrow> state \<Rightarrow> state" where
  "step (AnimationEnd r) s = animation_end r s"
| "step (Owner_render p) s =
     (if mounted s then commit (Some (deps_of s)) (s\<lparr>props := p\<rparr>) else s)"
| "step BackdropPress s = (if mounted s then backdrop_press s else s)"
| "step HardwareBackPress s = (if mounted s then snd (hardware_back_press s) else s)"
| "step AccessibilityEscape s = (if mounted s then accessibility_escape s else s)"
| "step Unmount s = (if mounted s then unmount s else s)"

text \<open>A run: the events of a list, one after the other.\<close>

fun run :: "state \<Rightarrow> event list \<Rightarrow> state" where
  "run s [] = s"
| "run s (e # es) = run (step e s) es"

subsection \<open>What the claims speak about\<close>

text \<open>A hide animation is in flight: the one whose callback is that of \<open>hideModal\<close>.\<close>

definition hide_in_flight :: "state \<Rightarrow> bool" where
  "hide_in_flight s =
     (case anim (opacity s) of None \<Rightarrow> False | Some a \<Rightarrow> callback a = Hide_callback)"

fun is_hide_start :: "call \<Rightarrow> bool" where
  "is_hide_start (Timing_start a) = (callback a = Hide_callback)"
| "is_hide_start OnDismiss = False"

text \<open>How many hide animations were started, and how often \<open>onDismiss\<close> was called.\<close>

definition hide_starts :: "call list \<Rightarrow> nat" where
  "hide_starts cs = length (filter is_hide_start cs)"

definition dismissals :: "call list \<Rightarrow> nat" where
  "dismissals cs = count_list cs OnDismiss"

text \<open>The calls a step added.\<close>

definition new_calls :: "state \<Rightarrow> state \<Rightarrow> call list" where
  "new_calls s s' = drop (length (calls s)) (calls s')"

text \<open>
  The events that ask for a dismissal: a press on the backdrop, the back button, the
  escape gesture, and the owner rendering with the visibility intent false.
\<close>

fun dismissal_trigger :: "event \<Rightarrow> bool" where
  "dismissal_trigger (Owner_render q) = (\<not> visible q)"
| "dismissal_trigger BackdropPress = True"
| "dismissal_trigger HardwareBackPress = True"
| "dismissal_trigger AccessibilityEscape = True"
| "dismissal_trigger (AnimationEnd r) = False"
| "dismissal_trigger Unmount = False"

text \<open>
  What holds of the state between two events: the committed elements, the registered
  listener and the marker are those of the last render, and the hooks agree with the
  props.
\<close>

definition consistent :: "state \<Rightarrow> bool" where
  "consistent s \<longleftrightarrow>
     (visible (props s) \<longrightarrow> rendered s) \<and>
     (visibleRef s \<longrightarrow> visible (props s)) \<and>
     (hide_in_flight s \<longrightarrow> rendered s) \<and>
     tree s = (if mounted s then render_result s else None) \<and>
     subscription s =
       (if mounted s \<and> visible (props s) then Some (onHardwareBackPress_of s) else None) \<and>
     prevVisible s = Some (visible (props s)) \<and>
     dismissals (calls s) + (if hide_in_flight s then 1 else 0) \<le> hide_starts (calls s)"

text \<open>
  The state in which the effect of lines 118 to 127 runs when the owner renders a mounted
  component with the props \<open>q\<close>: after the render and the two effects declared before it.
\<close>

definition before_effect_prevVisible :: "props \<Rightarrow> state \<Rightarrow> state" where
  "before_effect_prevVisible q s =
     effect_backHandler (Some (deps_of s)) (effect_visibleRef (Modal_render (s\<lparr>props := q\<rparr>)))"

text \<open>The props used in the examples.\<close>

definition shown :: props where
  "shown = \<lparr>dismissable = True, dismissableBackButton = True, visible = True, scale = 1\<rparr>"

definition hidden :: props where
  "hidden = \<lparr>dismissable = True, dismissableBackButton = True, visible = False, scale = 1\<rparr>"

definition locked :: props where
  "locked = \<lparr>dismissable = False, dismissableBackButton = False, visible = True, scale = 1\<rparr>"

subsection \<open>Abbreviations for the proofs\<close>

text \<open>
  The two animations as values, the effect of a start on the \<open>Animated.Value\<close>, and the
  condition under which the effect of lines 118 to 127 calls \<open>showModal\<close>.
\<close>

definition show_animation :: "real \<Rightarrow> timing_animation" where
  "show_animation sc =
     \<lparr>config = \<lparr>toValue = 1, duration = sc * 220, easing = Easing_out Easing_cubic,
                useNativeDriver = True\<rparr>,
      callback = No_callback\<rparr>"

definition hide_animation :: "real \<Rightarrow> timing_animation" where
  "hide_animation sc =
     \<lparr>config = \<lparr>toValue = 0, duration = sc * 220, easing = Easing_out Easing_cubic,
                useNativeDriver = True\<rparr>,
      callback = Hide_callback\<rparr>"

definition interrupted :: "animated_value \<Rightarrow> timing_animation \<Rightarrow> animated_value" where
  "interrupted v a =
     \<lparr>current = (if anim v = None then current v else None), anim = Some a\<rparr>"

definition shows_now :: "state \<Rightarrow> bool" where
  "shows_now s \<longleftrightarrow> visible (props s) \<and> prevVisible s \<noteq> Some True"

text \<open>What a step appends to the calls, for every event.\<close>

definition step_calls :: "event \<Rightarrow> state \<Rightarrow> call list" where
  "step_calls e s =
     (case e of
        Owner_render q \<Rightarrow>
          if mounted s \<and> visible q \<and> \<not> visible (props s)
          then [Timing_start (show_animation (scale q))] else []
      | BackdropPress \<Rightarrow>
          if mounted s \<and> dismissable (props s) \<and> visibleRef s
          then [Timing_start (hide_animation (scale (props s)))] else []
      | HardwareBackPress \<Rightarrow>
          if mounted s \<and> (dismissable (props s) \<or> dismissableBackButton (props s)) \<and>
             visibleRef s
          then [Timing_start (hide_animation (scale (props s)))] else []
      | AccessibilityEscape \<Rightarrow>
          if mounted s \<and> visibleRef s
          then [Timing_start (hide_animation (scale (props s)))] else []
      | AnimationEnd r \<Rightarrow>
          if hide_in_flight s then
            OnDismiss #
              (if mounted s \<and> visible (case r of None \<Rightarrow> props s | Some q \<Rightarrow> q) \<and>
                  \<not> visible (props s)
               then [Timing_start
                       (show_animation (scale (case r of None \<Rightarrow> props s | Some q \<Rightarrow> q)))]
               else [])
          else []
      | Unmount \<Rightarrow> [])"

section \<open>The operations in closed form\<close>

text \<open>
  Each operation of the component changes a few fields of the state. The lemmas of this
  section give every field after every operation, so that the proofs below never unfold
  more than one definition at a time.
\<close>

lemma run_callback_unfinished: "run_callback cb False s = s"
  by (cases cb) (simp_all add: run_callback_def)

lemma timing_start_eq:
  "timing_start a s =
     s\<lparr>opacity := interrupted (opacity s) a, calls := calls s @ [Timing_start a]\<rparr>"
  by (cases "anim (opacity s)") (simp_all add: timing_start_def run_callback_unfinished interrupted_def)

lemma showModal_eq:
  "showModal sc s =
     s\<lparr>opacity := interrupted (opacity s) (show_animation sc),
       calls := calls s @ [Timing_start (show_animation sc)]\<rparr>"
  by (simp add: showModal_def timing_start_eq show_animation_def DEFAULT_DURATION_def)

lemma hideModal_eq:
  "hideModal c s =
     (if hm_rendered c \<and> visibleRef s then
        s\<lparr>visibleRef := False, opacity := interrupted (opacity s) (hide_animation (hm_scale c)),
          calls := calls s @ [Timing_start (hide_animation (hm_scale c))]\<rparr>
      else s)"
  by (simp add: hideModal_def timing_start_eq hide_animation_def DEFAULT_DURATION_def)

lemma showModal_fields:
  "props (showModal sc s) = props s"
  "mounted (showModal sc s) = mounted s"
  "rendered (showModal sc s) = rendered s"
  "visibleRef (showModal sc s) = visibleRef s"
  "prevVisible (showModal sc s) = prevVisible s"
  "subscription (showModal sc s) = subscription s"
  "tree (showModal sc s) = tree s"
  "opacity (showModal sc s) = interrupted (opacity s) (show_animation sc)"
  "calls (showModal sc s) = calls s @ [Timing_start (show_animation sc)]"
  by (simp_all add: showModal_eq)

lemma hideModal_noop: "\<not> hm_rendered c \<or> \<not> visibleRef s \<Longrightarrow> hideModal c s = s"
  by (auto simp: hideModal_def)

lemma hideModal_fields:
  "props (hideModal c s) = props s"
  "mounted (hideModal c s) = mounted s"
  "rendered (hideModal c s) = rendered s"
  "visibleRef (hideModal c s) = (visibleRef s \<and> \<not> hm_rendered c)"
  "prevVisible (hideModal c s) = prevVisible s"
  "subscription (hideModal c s) = subscription s"
  "tree (hideModal c s) = tree s"
  "opacity (hideModal c s) =
     (if hm_rendered c \<and> visibleRef s
      then interrupted (opacity s) (hide_animation (hm_scale c)) else opacity s)"
  "calls (hideModal c s) =
     (if hm_rendered c \<and> visibleRef s
      then calls s @ [Timing_start (hide_animation (hm_scale c))] else calls s)"
  by (auto simp: hideModal_eq)

lemma Modal_render_fields:
  "props (Modal_render s) = props s"
  "mounted (Modal_render s) = mounted s"
  "rendered (Modal_render s) = (rendered s \<or> visible (props s))"
  "visibleRef (Modal_render s) = visibleRef s"
  "prevVisible (Modal_render s) = prevVisible s"
  "subscription (Modal_render s) = subscription s"
  "tree (Modal_render s) = render_result (s\<lparr>rendered := rendered s \<or> visible (props s)\<rparr>)"
  "opacity (Modal_render s) = opacity s"
  "calls (Modal_render s) = calls s"
  by (auto simp: Modal_render_def Let_def render_result_def hideModal_of_def)

lemma effect_visibleRef_fields:
  "props (effect_visibleRef s) = props s"
  "mounted (effect_visibleRef s) = mounted s"
  "rendered (effect_visibleRef s) = rendered s"
  "visibleRef (effect_visibleRef s) = visible (props s)"
  "prevVisible (effect_visibleRef s) = prevVisible s"
  "subscription (effect_visibleRef s) = subscription s"
  "tree (effect_visibleRef s) = tree s"
  "opacity (effect_visibleRef s) = opacity s"
  "calls (effect_visibleRef s) = calls s"
  by (simp_all add: effect_visibleRef_def)

lemma effect_backHandler_fields:
  "props (effect_backHandler prev s) = props s"
  "mounted (effect_backHandler prev s) = mounted s"
  "rendered (effect_backHandler prev s) = rendered s"
  "visibleRef (effect_backHandler prev s) = visibleRef s"
  "prevVisible (effect_backHandler prev s) = prevVisible s"
  "subscription (effect_backHandler prev s) =
     (if prev = Some (deps_of s) then subscription s
      else if visible (props s) then Some (onHardwareBackPress_of s) else None)"
  "tree (effect_backHandler prev s) = tree s"
  "opacity (effect_backHandler prev s) = opacity s"
  "calls (effect_backHandler prev s) = calls s"
  by (simp_all add: effect_backHandler_def Let_def onHardwareBackPress_of_def hideModal_of_def)

lemma effect_prevVisible_eq:
  "\<not> visible (props s) \<Longrightarrow> \<not> visibleRef s \<Longrightarrow>
     effect_prevVisible s = s\<lparr>prevVisible := Some False\<rparr>"
  "visible (props s) \<Longrightarrow>
     effect_prevVisible s =
       (if prevVisible s \<noteq> Some True then showModal (scale (props s)) s else s)
         \<lparr>prevVisible := Some True\<rparr>"
  by (simp_all add: effect_prevVisible_def Let_def hideModal_noop showModal_fields)

lemma effect_prevVisible_fields:
  assumes "visibleRef s = visible (props s)"
  shows "props (effect_prevVisible s) = props s"
    and "mounted (effect_prevVisible s) = mounted s"
    and "rendered (effect_prevVisible s) = rendered s"
    and "visibleRef (effect_prevVisible s) = visibleRef s"
    and "prevVisible (effect_prevVisible s) = Some (visible (props s))"
    and "subscription (effect_prevVisible s) = subscription s"
    and "tree (effect_prevVisible s) = tree s"
    and "opacity (effect_prevVisible s) =
       (if shows_now s then interrupted (opacity s) (show_animation (scale (props s)))
        else opacity s)"
    and "calls (effect_prevVisible s) =
       (if shows_now s then calls s @ [Timing_start (show_animation (scale (props s)))]
        else calls s)"
  using assms
  by (cases "visible (props s)"; simp add: effect_prevVisible_eq showModal_fields shows_now_def)+

lemma commit_fields:
  "props (commit prev s) = props s"
  "mounted (commit prev s) = mounted s"
  "rendered (commit prev s) = (rendered s \<or> visible (props s))"
  "visibleRef (commit prev s) = visible (props s)"
  "prevVisible (commit prev s) = Some (visible (props s))"
  "subscription (commit prev s) =
     (if prev = Some (deps_of (s\<lparr>rendered := rendered s \<or> visible (props s)\<rparr>))
      then subscription s
      else if visible (props s)
        then Some (onHardwareBackPress_of (s\<lparr>rendered := rendered s \<or> visible (props s)\<rparr>))
        else None)"
  "tree (commit prev s) = render_result (s\<lparr>rendered := rendered s \<or> visible (props s)\<rparr>)"
  "opacity (commit prev s) =
     (if shows_now s then interrupted (opacity s) (show_animation (scale (props s)))
      else opacity s)"
  "calls (commit prev s) =
     (if shows_now s then calls s @ [Timing_start (show_animation (scale (props s)))]
      else calls s)"
  by (simp_all add: commit_def effect_prevVisible_fields effect_backHandler_fields
      effect_visibleRef_fields Modal_render_fields shows_now_def
      deps_of_def onHardwareBackPress_of_def hideModal_of_def)

section \<open>The invariant\<close>

text \<open>
  \<open>consistent\<close> holds after the first render and is kept by every step, hence in every
  state of every run.
\<close>

lemmas closure_defs = render_result_def hideModal_of_def onHardwareBackPress_of_def deps_of_def

lemma hide_in_flight_interrupted [simp]:
  "hide_in_flight (s\<lparr>opacity := interrupted v a\<rparr>) = (callback a = Hide_callback)"
  by (simp add: hide_in_flight_def interrupted_def)

lemma hide_starts_simps [simp]:
  "hide_starts [] = 0"
  "hide_starts (c # cs) = (if is_hide_start c then 1 else 0) + hide_starts cs"
  "hide_starts (cs @ ds) = hide_starts cs + hide_starts ds"
  by (simp_all add: hide_starts_def)

lemma dismissals_simps [simp]:
  "dismissals [] = 0"
  "dismissals (c # cs) = (if c = OnDismiss then 1 else 0) + dismissals cs"
  "dismissals (cs @ ds) = dismissals cs + dismissals ds"
  by (induction cs) (simp_all add: dismissals_def)

lemma consistent_mount: "consistent (mount p)"
  by (simp add: consistent_def mount_def commit_fields closure_defs shows_now_def
      hide_in_flight_def interrupted_def show_animation_def hide_starts_def dismissals_def)

lemma consistentI:
  assumes "visible (props s) \<Longrightarrow> rendered s"
    and "visibleRef s \<Longrightarrow> visible (props s)"
    and "hide_in_flight s \<Longrightarrow> rendered s"
    and "tree s = (if mounted s then render_result s else None)"
    and "subscription s =
       (if mounted s \<and> visible (props s) then Some (onHardwareBackPress_of s) else None)"
    and "prevVisible s = Some (visible (props s))"
    and "dismissals (calls s) + (if hide_in_flight s then 1 else 0) \<le> hide_starts (calls s)"
  shows "consistent s"
  unfolding consistent_def using assms by blast

lemma consistentD:
  assumes "consistent s"
  shows "visible (props s) \<Longrightarrow> rendered s"
    and "visibleRef s \<Longrightarrow> visible (props s)"
    and "hide_in_flight s \<Longrightarrow> rendered s"
    and "tree s = (if mounted s then render_result s else None)"
    and "subscription s =
       (if mounted s \<and> visible (props s) then Some (onHardwareBackPress_of s) else None)"
    and "prevVisible s = Some (visible (props s))"
    and "dismissals (calls s) + (if hide_in_flight s then 1 else 0) \<le> hide_starts (calls s)"
  using assms unfolding consistent_def by blast+

lemma consistent_Owner_render:
  assumes "consistent s"
  shows "consistent (step (Owner_render p) s)"
proof (cases "mounted s")
  case False
  with assms show ?thesis by simp
next
  case True
  let ?s' = "commit (Some (deps_of s)) (s\<lparr>props := p\<rparr>)"
  note a = consistentD [OF assms]
  have f: "hide_in_flight ?s' = (\<not> shows_now (s\<lparr>props := p\<rparr>) \<and> hide_in_flight s)"
    by (simp add: commit_fields hide_in_flight_def interrupted_def show_animation_def)
  have "consistent ?s'"
  proof (rule consistentI)
    show "visible (props ?s') \<Longrightarrow> rendered ?s'"
      by (simp add: commit_fields)
    show "visibleRef ?s' \<Longrightarrow> visible (props ?s')"
      by (simp add: commit_fields)
    show "hide_in_flight ?s' \<Longrightarrow> rendered ?s'"
      using a(3) by (simp add: f commit_fields)
    show "tree ?s' = (if mounted ?s' then render_result ?s' else None)"
      using True by (simp add: commit_fields closure_defs)
    show "subscription ?s' =
       (if mounted ?s' \<and> visible (props ?s') then Some (onHardwareBackPress_of ?s') else None)"
      using True a(1) a(5) by (auto simp: commit_fields closure_defs)
    show "prevVisible ?s' = Some (visible (props ?s'))"
      by (simp add: commit_fields)
    show "dismissals (calls ?s') + (if hide_in_flight ?s' then 1 else 0) \<le> hide_starts (calls ?s')"
      using a(7) by (simp add: f commit_fields show_animation_def)
  qed
  with True show ?thesis by simp
qed

lemma hide_in_flight_hideModal:
  "hide_in_flight (hideModal c s) = (hm_rendered c \<and> visibleRef s \<or> hide_in_flight s)"
  by (auto simp: hideModal_eq hide_in_flight_def interrupted_def hide_animation_def)

lemma consistent_hideModal:
  assumes "consistent s"
  shows "consistent (hideModal (hideModal_of s) s)"
proof (cases "hm_rendered (hideModal_of s) \<and> visibleRef s")
  case False
  then show ?thesis using assms by (simp add: hideModal_noop)
next
  case True
  let ?s' = "hideModal (hideModal_of s) s"
  note a = consistentD [OF assms]
  show ?thesis
  proof (rule consistentI)
    show "visible (props ?s') \<Longrightarrow> rendered ?s'"
      using a(1) by (simp add: hideModal_fields)
    show "visibleRef ?s' \<Longrightarrow> visible (props ?s')"
      using a(2) by (simp add: hideModal_fields)
    show "hide_in_flight ?s' \<Longrightarrow> rendered ?s'"
      using True by (simp add: hideModal_fields hideModal_of_def)
    show "tree ?s' = (if mounted ?s' then render_result ?s' else None)"
      using a(4) by (simp add: hideModal_fields closure_defs)
    show "subscription ?s' =
       (if mounted ?s' \<and> visible (props ?s') then Some (onHardwareBackPress_of ?s') else None)"
      using a(5) by (simp add: hideModal_fields closure_defs)
    show "prevVisible ?s' = Some (visible (props ?s'))"
      using a(6) by (simp add: hideModal_fields)
    show "dismissals (calls ?s') + (if hide_in_flight ?s' then 1 else 0) \<le> hide_starts (calls ?s')"
      using a(7) True by (simp add: hide_in_flight_hideModal hideModal_fields hide_animation_def)
  qed
qed

lemma backdrop_press_eq:
  assumes "consistent s" and "mounted s"
  shows "backdrop_press s = (if dismissable (props s) then hideModal (hideModal_of s) s else s)"
proof (cases "rendered s")
  case False
  then have "tree s = None" "\<not> hm_rendered (hideModal_of s)"
    using consistentD(4) [OF assms(1)] by (simp_all add: closure_defs)
  then show ?thesis by (simp add: backdrop_press_def hideModal_noop)
next
  case True
  show ?thesis
  proof (cases "visible (props s)")
    case False
    then have "\<not> visibleRef s" using consistentD(2) [OF assms(1)] by blast
    then show ?thesis
      using True False assms(2) consistentD(4) [OF assms(1)]
      by (simp add: backdrop_press_def hideModal_noop closure_defs)
  next
    case visible: True
    then show ?thesis
      using True assms(2) consistentD(4) [OF assms(1)]
      by (simp add: backdrop_press_def closure_defs)
  qed
qed

lemma accessibility_escape_eq:
  assumes "consistent s" and "mounted s"
  shows "accessibility_escape s = hideModal (hideModal_of s) s"
proof (cases "rendered s")
  case False
  then have "tree s = None" "\<not> hm_rendered (hideModal_of s)"
    using consistentD(4) [OF assms(1)] by (simp_all add: closure_defs)
  then show ?thesis by (simp add: accessibility_escape_def hideModal_noop)
next
  case True
  then show ?thesis
    using assms(2) consistentD(4) [OF assms(1)]
    by (simp add: accessibility_escape_def closure_defs)
qed

lemma hardware_back_press_eq:
  assumes "consistent s" and "mounted s"
  shows "hardware_back_press s =
     (if visible (props s) then
        (True, if dismissable (props s) \<or> dismissableBackButton (props s)
               then hideModal (hideModal_of s) s else s)
      else (False, s))"
  using assms(2) consistentD(5) [OF assms(1)]
  by (simp add: hardware_back_press_def onHardwareBackPress_def onHardwareBackPress_of_def)

lemma consistent_dismissals:
  assumes "consistent s"
  shows "consistent (step BackdropPress s)"
    and "consistent (step HardwareBackPress s)"
    and "consistent (step AccessibilityEscape s)"
  using assms consistent_hideModal [OF assms]
  by (simp_all add: backdrop_press_eq accessibility_escape_eq hardware_back_press_eq)

lemma unmount_fields:
  "props (unmount s) = props s"
  "mounted (unmount s) = False"
  "rendered (unmount s) = rendered s"
  "visibleRef (unmount s) = visibleRef s"
  "prevVisible (unmount s) = prevVisible s"
  "subscription (unmount s) = None"
  "tree (unmount s) = None"
  "opacity (unmount s) =
     (if anim (opacity s) = None then opacity s else \<lparr>current = None, anim = None\<rparr>)"
  "calls (unmount s) = calls s"
  by (cases "anim (opacity s)"; simp add: unmount_def run_callback_unfinished)+

lemma hide_in_flight_unmount: "\<not> hide_in_flight (unmount s)"
  by (simp add: hide_in_flight_def unmount_fields)

lemma consistent_unmount:
  assumes "consistent s"
  shows "consistent (step Unmount s)"
proof (cases "mounted s")
  case False
  with assms show ?thesis by simp
next
  case True
  note a = consistentD [OF assms]
  have "consistent (unmount s)"
  proof (rule consistentI)
    show "visible (props (unmount s)) \<Longrightarrow> rendered (unmount s)"
      using a(1) by (simp add: unmount_fields)
    show "visibleRef (unmount s) \<Longrightarrow> visible (props (unmount s))"
      using a(2) by (simp add: unmount_fields)
    show "hide_in_flight (unmount s) \<Longrightarrow> rendered (unmount s)"
      by (simp add: hide_in_flight_unmount)
    show "tree (unmount s) = (if mounted (unmount s) then render_result (unmount s) else None)"
      by (simp add: unmount_fields)
    show "subscription (unmount s) =
       (if mounted (unmount s) \<and> visible (props (unmount s))
        then Some (onHardwareBackPress_of (unmount s)) else None)"
      by (simp add: unmount_fields)
    show "prevVisible (unmount s) = Some (visible (props (unmount s)))"
      using a(6) by (simp add: unmount_fields)
    show "dismissals (calls (unmount s)) + (if hide_in_flight (unmount s) then 1 else 0)
        \<le> hide_starts (calls (unmount s))"
      using a(7) by (simp add: hide_in_flight_unmount unmount_fields)
  qed
  with True show ?thesis by simp
qed

lemma animation_end_show:
  assumes "anim (opacity s) = Some a" and "callback a = No_callback"
  shows "animation_end r s = s\<lparr>opacity := \<lparr>current = Some (toValue (config a)), anim = None\<rparr>\<rparr>"
  using assms by (simp add: animation_end_def run_callback_def Let_def)

lemma animation_end_hide_unmounted:
  assumes "anim (opacity s) = Some a" and "callback a = Hide_callback" and "\<not> mounted s"
  shows "animation_end r s =
     s\<lparr>opacity := \<lparr>current = Some (toValue (config a)), anim = None\<rparr>,
       calls := calls s @ [OnDismiss]\<rparr>"
  using assms by (simp add: animation_end_def run_callback_def Let_def)

lemma animation_end_hide:
  assumes "anim (opacity s) = Some a" and "callback a = Hide_callback" and "mounted s"
    and "rendered s"
  shows "animation_end r s =
     commit (Some (deps_of s))
       (s\<lparr>opacity := \<lparr>current = Some (toValue (config a)), anim = None\<rparr>,
          calls := calls s @ [OnDismiss], rendered := False,
          props := (case r of None \<Rightarrow> props s | Some p \<Rightarrow> p)\<rparr>)"
  using assms by (cases r) (simp_all add: animation_end_def run_callback_def Let_def)

lemma consistent_animation_end:
  assumes "consistent s"
  shows "consistent (step (AnimationEnd r) s)"
proof (cases "anim (opacity s)")
  case None
  with assms show ?thesis by (simp add: animation_end_def)
next
  case (Some a)
  note a = consistentD [OF assms]
  show ?thesis
  proof (cases "callback a")
    case No_callback
    let ?s' = "s\<lparr>opacity := \<lparr>current = Some (toValue (config a)), anim = None\<rparr>\<rparr>"
    have h: "\<not> hide_in_flight ?s'" "\<not> hide_in_flight s"
      using Some No_callback by (simp_all add: hide_in_flight_def)
    have "consistent ?s'"
      by (rule consistentI) (use a h in \<open>auto simp: closure_defs\<close>)
    then show ?thesis using Some No_callback by (simp add: animation_end_show)
  next
    case Hide_callback
    then have hf: "hide_in_flight s" using Some by (simp add: hide_in_flight_def)
    show ?thesis
    proof (cases "mounted s")
      case False
      let ?s' = "s\<lparr>opacity := \<lparr>current = Some (toValue (config a)), anim = None\<rparr>,
                    calls := calls s @ [OnDismiss]\<rparr>"
      have h: "\<not> hide_in_flight ?s'"
        by (simp add: hide_in_flight_def)
      have "consistent ?s'"
        by (rule consistentI) (use a h hf False in \<open>auto simp: closure_defs\<close>)
      then show ?thesis using Some Hide_callback False by (simp add: animation_end_hide_unmounted)
    next
      case True
      define q where "q = (case r of None \<Rightarrow> props s | Some p \<Rightarrow> p)"
      define s0 where "s0 = s\<lparr>opacity := \<lparr>current = Some (toValue (config a)), anim = None\<rparr>,
          calls := calls s @ [OnDismiss], rendered := False, props := q\<rparr>"
      let ?s' = "commit (Some (deps_of s)) s0"
      have eq: "step (AnimationEnd r) s = ?s'"
        using Some Hide_callback True a(3) hf by (simp add: animation_end_hide s0_def q_def)
      have s0: "props s0 = q" "mounted s0" "\<not> rendered s0" "prevVisible s0 = prevVisible s"
        "calls s0 = calls s @ [OnDismiss]" "\<not> hide_in_flight s0" "subscription s0 = subscription s"
        using True by (simp_all add: s0_def hide_in_flight_def)
      have f: "hide_in_flight ?s' = False"
        using s0(6) by (simp add: commit_fields hide_in_flight_def interrupted_def show_animation_def)
      have "consistent ?s'"
      proof (rule consistentI)
        show "visible (props ?s') \<Longrightarrow> rendered ?s'"
          by (simp add: commit_fields)
        show "visibleRef ?s' \<Longrightarrow> visible (props ?s')"
          by (simp add: commit_fields)
        show "hide_in_flight ?s' \<Longrightarrow> rendered ?s'"
          by (simp add: f)
        show "tree ?s' = (if mounted ?s' then render_result ?s' else None)"
          using s0(2) by (simp add: commit_fields closure_defs)
        show "subscription ?s' =
           (if mounted ?s' \<and> visible (props ?s') then Some (onHardwareBackPress_of ?s') else None)"
          using True s0 a(1) a(5) by (auto simp: commit_fields closure_defs)
        show "prevVisible ?s' = Some (visible (props ?s'))"
          by (simp add: commit_fields)
        show "dismissals (calls ?s') + (if hide_in_flight ?s' then 1 else 0) \<le> hide_starts (calls ?s')"
          using a(7) hf s0(5) by (simp add: f commit_fields show_animation_def)
      qed
      then show ?thesis by (simp only: eq)
    qed
  qed
qed

lemma consistent_step: "consistent s \<Longrightarrow> consistent (step e s)"
  by (cases e) (simp_all only: consistent_Owner_render consistent_dismissals
      consistent_animation_end consistent_unmount)

lemma consistent_run: "consistent s \<Longrightarrow> consistent (run s es)"
  by (induction es arbitrary: s) (simp_all add: consistent_step)

lemma consistent_reachable: "consistent (run (mount p) es)"
  by (rule consistent_run [OF consistent_mount])

section \<open>The steps of a run\<close>

text \<open>
  In a consistent state the closures held by the committed elements and by the listener
  are those of the current render, so every step has a closed form in the fields of the
  state before it.
\<close>

lemma hideModal_consistent_eq:
  assumes "consistent s"
  shows "hideModal (hideModal_of s) s =
     (if visibleRef s then
        s\<lparr>visibleRef := False,
          opacity := interrupted (opacity s) (hide_animation (scale (props s))),
          calls := calls s @ [Timing_start (hide_animation (scale (props s)))]\<rparr>
      else s)"
  using consistentD(1,2) [OF assms] by (auto simp: hideModal_eq hideModal_of_def)

lemma shows_now_props:
  assumes "consistent s"
  shows "shows_now (s\<lparr>props := q\<rparr>) = (visible q \<and> \<not> visible (props s))"
  using consistentD(6) [OF assms] by (simp add: shows_now_def)

lemma dismissals_step_calls:
  "dismissals (step_calls e s) = (if (\<exists>r. e = AnimationEnd r) \<and> hide_in_flight s then 1 else 0)"
  by (cases e) (simp_all add: step_calls_def)

lemma hide_starts_step_calls:
  "hide_starts (step_calls e s) =
     (if mounted s \<and> visibleRef s \<and>
         (e = BackdropPress \<and> dismissable (props s) \<or>
          e = HardwareBackPress \<and> (dismissable (props s) \<or> dismissableBackButton (props s)) \<or>
          e = AccessibilityEscape)
      then 1 else 0)"
  by (cases e) (simp_all add: step_calls_def show_animation_def hide_animation_def)

lemma step_AnimationEnd_eq:
  assumes "consistent s"
  shows "step (AnimationEnd r) s =
     (case anim (opacity s) of
        None \<Rightarrow> s
      | Some a \<Rightarrow>
          (case callback a of
             No_callback \<Rightarrow>
               s\<lparr>opacity := \<lparr>current = Some (toValue (config a)), anim = None\<rparr>\<rparr>
           | Hide_callback \<Rightarrow>
               if \<not> mounted s then
                 s\<lparr>opacity := \<lparr>current = Some (toValue (config a)), anim = None\<rparr>,
                   calls := calls s @ [OnDismiss]\<rparr>
               else
                 commit (Some (deps_of s))
                   (s\<lparr>opacity := \<lparr>current = Some (toValue (config a)), anim = None\<rparr>,
                      calls := calls s @ [OnDismiss], rendered := False,
                      props := (case r of None \<Rightarrow> props s | Some q \<Rightarrow> q)\<rparr>)))"
proof (cases "anim (opacity s)")
  case None
  then show ?thesis by (simp add: animation_end_def)
next
  case (Some a)
  show ?thesis
  proof (cases "callback a")
    case No_callback
    then show ?thesis using Some by (simp add: animation_end_show)
  next
    case Hide_callback
    then have "hide_in_flight s" using Some by (simp add: hide_in_flight_def)
    then have r: "rendered s" using consistentD(3) [OF assms] by blast
    show ?thesis
    proof (cases "mounted s")
      case False
      then show ?thesis
        using Some Hide_callback by (simp add: animation_end_hide_unmounted)
    next
      case True
      then show ?thesis
        using Some Hide_callback by (simp add: animation_end_hide [OF Some Hide_callback True r])
    qed
  qed
qed

lemmas step_eqs = backdrop_press_eq hardware_back_press_eq accessibility_escape_eq

lemma calls_step:
  assumes "consistent s"
  shows "calls (step e s) = calls s @ step_calls e s"
proof (cases e)
  case (AnimationEnd r)
  then show ?thesis
    using consistentD(6) [OF assms]
    by (simp add: step_AnimationEnd_eq [OF assms] commit_fields hide_in_flight_def
        step_calls_def shows_now_def
        split: option.splits end_callback.splits del: step.simps)
next
  case (Owner_render q)
  then show ?thesis
    by (cases "mounted s")
      (simp_all add: commit_fields shows_now_props [OF assms] step_calls_def)
qed (use consistentD(1,2) [OF assms] in \<open>cases "mounted s";
    auto simp: step_eqs [OF assms] hideModal_fields unmount_fields step_calls_def
      hideModal_of_def hide_animation_def\<close>)+

lemma props_step:
  assumes "consistent s"
  shows "props (step e s) =
     (case e of
        Owner_render q \<Rightarrow> if mounted s then q else props s
      | AnimationEnd r \<Rightarrow>
          if hide_in_flight s \<and> mounted s then (case r of None \<Rightarrow> props s | Some q \<Rightarrow> q)
          else props s
      | _ \<Rightarrow> props s)"
proof (cases e)
  case (AnimationEnd r)
  then show ?thesis
    by (simp add: step_AnimationEnd_eq [OF assms] commit_fields hide_in_flight_def
        split: option.splits end_callback.splits del: step.simps)
qed (cases "mounted s";
    simp add: step_eqs [OF assms] hideModal_fields commit_fields unmount_fields)+

lemma mounted_step:
  assumes "consistent s"
  shows "mounted (step e s) = (mounted s \<and> e \<noteq> Unmount)"
proof (cases e)
  case (AnimationEnd r)
  then show ?thesis
    by (simp add: step_AnimationEnd_eq [OF assms] commit_fields
        split: option.splits end_callback.splits del: step.simps)
qed (cases "mounted s";
    simp add: step_eqs [OF assms] hideModal_fields commit_fields unmount_fields)+

lemma rendered_step:
  assumes "consistent s"
  shows "rendered (step e s) =
     (case e of
        Owner_render q \<Rightarrow> rendered s \<or> mounted s \<and> visible q
      | AnimationEnd r \<Rightarrow>
          if hide_in_flight s \<and> mounted s
          then visible (case r of None \<Rightarrow> props s | Some q \<Rightarrow> q)
          else rendered s
      | _ \<Rightarrow> rendered s)"
proof (cases e)
  case (AnimationEnd r)
  then show ?thesis
    by (simp add: step_AnimationEnd_eq [OF assms] commit_fields hide_in_flight_def
        split: option.splits end_callback.splits del: step.simps)
qed (cases "mounted s";
    simp add: step_eqs [OF assms] hideModal_fields commit_fields unmount_fields)+

lemma visibleRef_step:
  assumes "consistent s"
  shows "visibleRef (step e s) =
     (case e of
        Owner_render q \<Rightarrow> if mounted s then visible q else visibleRef s
      | AnimationEnd r \<Rightarrow>
          if hide_in_flight s \<and> mounted s
          then visible (case r of None \<Rightarrow> props s | Some q \<Rightarrow> q)
          else visibleRef s
      | Unmount \<Rightarrow> visibleRef s
      | _ \<Rightarrow> visibleRef s \<and> hide_starts (step_calls e s) = 0)"
proof (cases e)
  case (AnimationEnd r)
  then show ?thesis
    by (simp add: step_AnimationEnd_eq [OF assms] commit_fields hide_in_flight_def
        split: option.splits end_callback.splits del: step.simps)
qed (use consistentD(1,2) [OF assms] in \<open>cases "mounted s";
    auto simp: step_eqs [OF assms] hideModal_fields commit_fields unmount_fields
      hide_starts_step_calls hideModal_of_def\<close>)+

lemma step_dismissal_eq:
  assumes "consistent s" and "mounted s"
  shows "step BackdropPress s =
       (if dismissable (props s) then hideModal (hideModal_of s) s else s)"
    and "step HardwareBackPress s =
       (if visible (props s) \<and> (dismissable (props s) \<or> dismissableBackButton (props s))
        then hideModal (hideModal_of s) s else s)"
    and "step AccessibilityEscape s = hideModal (hideModal_of s) s"
  using assms(2)
  by (simp_all add: backdrop_press_eq [OF assms] hardware_back_press_eq [OF assms]
      accessibility_escape_eq [OF assms])

lemma hide_start_clears_flag:
  assumes "consistent s"
    and "hide_starts (step_calls e s) \<noteq> 0"
  shows "visibleRef s \<and> \<not> visibleRef (step e s) \<and> hide_in_flight (step e s)"
proof -
  from assms(2) have m: "mounted s" and v: "visibleRef s"
    and e: "e = BackdropPress \<and> dismissable (props s) \<or>
          e = HardwareBackPress \<and> (dismissable (props s) \<or> dismissableBackButton (props s)) \<or>
          e = AccessibilityEscape"
    by (simp_all add: hide_starts_step_calls split: if_splits)
  have vis: "visible (props s)" using consistentD(2) [OF assms(1)] v by blast
  have "step e s = hideModal (hideModal_of s) s"
    using e vis m
    by (auto simp: backdrop_press_eq [OF assms(1) m] hardware_back_press_eq [OF assms(1) m]
        accessibility_escape_eq [OF assms(1) m])
  then show ?thesis
    using v
    by (simp add: hideModal_consistent_eq [OF assms(1)] hide_animation_def hide_in_flight_def
        interrupted_def)
qed

lemma new_calls_step:
  assumes "consistent s"
  shows "new_calls s (step e s) = step_calls e s"
  by (simp add: new_calls_def calls_step [OF assms])

lemma step_calls_config:
  assumes "consistent s" and "Timing_start a \<in> set (step_calls e s)"
  shows "config a =
          \<lparr>toValue = (if callback a = Hide_callback then 0 else 1),
           duration = scale (props (step e s)) * DEFAULT_DURATION,
           easing = Easing_out Easing_cubic, useNativeDriver = True\<rparr>"
  using assms(2) unfolding props_step [OF assms(1)]
  by (cases e)
    (auto simp: step_calls_def show_animation_def hide_animation_def DEFAULT_DURATION_def
      split: if_splits option.splits)

lemma trigger_step:
  assumes "consistent s" and "dismissal_trigger e"
  shows "hide_starts (calls (step e s)) + (if visibleRef (step e s) then 1 else 0)
     \<le> hide_starts (calls s) + (if visibleRef s then 1 else 0)"
  using assms(2)
  unfolding calls_step [OF assms(1)] visibleRef_step [OF assms(1)]
  by (cases e) (simp_all add: hide_starts_step_calls)

lemma trigger_run:
  assumes "consistent s" and "\<forall>e \<in> set ts. dismissal_trigger e"
  shows "hide_starts (calls (run s ts)) + (if visibleRef (run s ts) then 1 else 0)
     \<le> hide_starts (calls s) + (if visibleRef s then 1 else 0)"
  using assms
proof (induction ts arbitrary: s)
  case Nil
  then show ?case by simp
next
  case (Cons e ts)
  have "hide_starts (calls (run (step e s) ts)) + (if visibleRef (run (step e s) ts) then 1 else 0)
      \<le> hide_starts (calls (step e s)) + (if visibleRef (step e s) then 1 else 0)"
    using Cons.prems by (intro Cons.IH consistent_step) simp_all
  also have "\<dots> \<le> hide_starts (calls s) + (if visibleRef s then 1 else 0)"
    using Cons.prems by (intro trigger_step) simp_all
  finally show ?case by simp
qed

lemma opacity_step:
  assumes "consistent s" and "opacity (step e s) \<noteq> opacity s"
  shows "(\<exists>r. e = AnimationEnd r) \<or> e = Unmount \<or>
    (\<exists>a. Timing_start a \<in> set (step_calls e s))"
proof (cases e)
  case (Owner_render q)
  then show ?thesis
    using assms(2)
    by (cases "mounted s")
      (auto simp: commit_fields shows_now_props [OF assms(1)] step_calls_def split: if_splits)
next
  case BackdropPress
  then show ?thesis
    using assms(2) consistentD(1,2) [OF assms(1)]
    by (cases "mounted s")
      (auto simp: backdrop_press_eq [OF assms(1)] hideModal_fields step_calls_def
        hideModal_of_def split: if_splits)
next
  case HardwareBackPress
  then show ?thesis
    using assms(2) consistentD(1,2) [OF assms(1)]
    by (cases "mounted s")
      (auto simp: hardware_back_press_eq [OF assms(1)] hideModal_fields step_calls_def
        hideModal_of_def split: if_splits)
next
  case AccessibilityEscape
  then show ?thesis
    using assms(2) consistentD(1,2) [OF assms(1)]
    by (cases "mounted s")
      (auto simp: accessibility_escape_eq [OF assms(1)] hideModal_fields step_calls_def
        hideModal_of_def split: if_splits)
next
  case (AnimationEnd r)
  then show ?thesis by blast
next
  case Unmount
  then show ?thesis by blast
qed

lemma Owner_render_same_props:
  assumes "consistent s" and "mounted s"
  shows "step (Owner_render (props s)) s = s\<lparr>visibleRef := visible (props s)\<rparr>"
proof -
  note a = consistentD [OF assms(1)]
  have n: "\<not> shows_now s"
    using a(6) by (simp add: shows_now_def)
  have r: "(rendered s \<or> visible (props s)) = rendered s"
    using a(1) by blast
  have "commit (Some (deps_of s)) s = s\<lparr>visibleRef := visible (props s)\<rparr>"
  proof (rule state.equality)
    show "tree (commit (Some (deps_of s)) s) = tree (s\<lparr>visibleRef := visible (props s)\<rparr>)"
      using a(4) assms(2) by (simp add: commit_fields r)
    show "subscription (commit (Some (deps_of s)) s) =
        subscription (s\<lparr>visibleRef := visible (props s)\<rparr>)"
      by (simp add: commit_fields r)
  qed (simp_all add: commit_fields n r a(6))
  then show ?thesis using assms(2) by simp
qed

lemma Owner_render_idem:
  assumes "consistent s"
  shows "step (Owner_render q) (step (Owner_render q) s) = step (Owner_render q) s"
proof (cases "mounted s")
  case False
  then show ?thesis by simp
next
  case True
  define s' where "s' = step (Owner_render q) s"
  have c': "consistent s'" unfolding s'_def by (rule consistent_step [OF assms])
  have f: "mounted s'" "props s' = q" "visibleRef s' = visible q"
    using True by (simp_all add: s'_def commit_fields)
  from Owner_render_same_props [OF c' f(1)] have "step (Owner_render q) s' = s'"
    unfolding f by (simp add: f(3) [symmetric])
  then show ?thesis unfolding s'_def .
qed

section \<open>Example runs\<close>

lemmas model_defs = mount_def commit_def Modal_render_def render_result_def
  effect_visibleRef_def effect_backHandler_def effect_prevVisible_def showModal_def
  hideModal_def timing_start_def run_callback_def backdrop_press_def animation_end_def
  accessibility_escape_def hardware_back_press_def onHardwareBackPress_def unmount_def
  deps_of_def hideModal_of_def onHardwareBackPress_of_def DEFAULT_DURATION_def
  shown_def hidden_def locked_def Let_def

text \<open>A press on the backdrop, then the owner takes the intent back: the fade-out runs.\<close>

lemma fading_out:
  "run (mount shown) [BackdropPress, Owner_render hidden] =
     \<lparr>props = hidden, mounted = True, rendered = True, visibleRef = False,
      prevVisible = Some False,
      opacity = \<lparr>current = None, anim = Some (hide_animation 1)\<rparr>,
      subscription = None,
      tree = Some \<lparr>pointerEvents = Pointer_none,
                   onAccessibilityEscape = \<lparr>hm_rendered = True, hm_scale = 1\<rparr>,
                   disabled = False,
                   onPress = Some \<lparr>hm_rendered = True, hm_scale = 1\<rparr>\<rparr>,
      calls = [Timing_start (show_animation 1), Timing_start (hide_animation 1)]\<rparr>"
  by (simp add: model_defs show_animation_def hide_animation_def)

text \<open>A press on the backdrop of a visible component: the hide is requested.\<close>

lemma hide_requested:
  "run (mount shown) [BackdropPress] =
     \<lparr>props = shown, mounted = True, rendered = True, visibleRef = False,
      prevVisible = Some True,
      opacity = \<lparr>current = None, anim = Some (hide_animation 1)\<rparr>,
      subscription = Some \<lparr>bp_dismissable = True, bp_dismissableBackButton = True,
                           bp_hideModal = \<lparr>hm_rendered = True, hm_scale = 1\<rparr>\<rparr>,
      tree = Some \<lparr>pointerEvents = Pointer_auto,
                   onAccessibilityEscape = \<lparr>hm_rendered = True, hm_scale = 1\<rparr>,
                   disabled = False,
                   onPress = Some \<lparr>hm_rendered = True, hm_scale = 1\<rparr>\<rparr>,
      calls = [Timing_start (show_animation 1), Timing_start (hide_animation 1)]\<rparr>"
  by (simp add: model_defs show_animation_def hide_animation_def)

text \<open>The first render of a visible component, dismissable or not.\<close>

lemma mounted_locked:
  "mount locked =
     \<lparr>props = locked, mounted = True, rendered = True, visibleRef = True,
      prevVisible = Some True,
      opacity = \<lparr>current = Some 1, anim = Some (show_animation 1)\<rparr>,
      subscription = Some \<lparr>bp_dismissable = False, bp_dismissableBackButton = False,
                           bp_hideModal = \<lparr>hm_rendered = True, hm_scale = 1\<rparr>\<rparr>,
      tree = Some \<lparr>pointerEvents = Pointer_auto,
                   onAccessibilityEscape = \<lparr>hm_rendered = True, hm_scale = 1\<rparr>,
                   disabled = True, onPress = None\<rparr>,
      calls = [Timing_start (show_animation 1)]\<rparr>"
  by (simp add: model_defs show_animation_def)

lemma mounted_shown:
  "mount shown =
     \<lparr>props = shown, mounted = True, rendered = True, visibleRef = True,
      prevVisible = Some True,
      opacity = \<lparr>current = Some 1, anim = Some (show_animation 1)\<rparr>,
      subscription = Some \<lparr>bp_dismissable = True, bp_dismissableBackButton = True,
                           bp_hideModal = \<lparr>hm_rendered = True, hm_scale = 1\<rparr>\<rparr>,
      tree = Some \<lparr>pointerEvents = Pointer_auto,
                   onAccessibilityEscape = \<lparr>hm_rendered = True, hm_scale = 1\<rparr>,
                   disabled = False,
                   onPress = Some \<lparr>hm_rendered = True, hm_scale = 1\<rparr>\<rparr>,
      calls = [Timing_start (show_animation 1)]\<rparr>"
  by (simp add: model_defs show_animation_def)

text \<open>The fade-out ends and the owner, in \<open>onDismiss\<close>, takes the intent back.\<close>

lemma dismissed:
  "run (mount shown) [BackdropPress, AnimationEnd (Some hidden)] =
     \<lparr>props = hidden, mounted = True, rendered = False, visibleRef = False,
      prevVisible = Some False,
      opacity = \<lparr>current = Some 0, anim = None\<rparr>,
      subscription = None, tree = None,
      calls = [Timing_start (show_animation 1), Timing_start (hide_animation 1), OnDismiss]\<rparr>"
  by (simp add: model_defs show_animation_def hide_animation_def)

text \<open>
  The effect of lines 53 to 55 sets the internal visibility flag to the intent at every
  render, and it runs before the effect of lines 118 to 127. When the owner sets the
  intent to false, the flag is already false when that effect calls \<open>hideModal\<close>, which
  returns at line 78: no animation is started, and the component stays rendered at the
  opacity it had.
\<close>

lemma intent_false_starts_no_hide:
  "new_calls (mount shown) (step (Owner_render hidden) (mount shown)) = [] \<and>
   rendered (run (mount shown) [Owner_render hidden, AnimationEnd None]) \<and>
   tree (run (mount shown) [Owner_render hidden, AnimationEnd None]) \<noteq> None \<and>
   current (opacity (run (mount shown) [Owner_render hidden, AnimationEnd None])) = Some 1"
  by (simp add: model_defs new_calls_def)

text \<open>
  An unmount during the fade-out stops the hide animation: no end of it comes afterwards
  and \<open>onDismiss\<close> is not called.
\<close>

lemma unmount_stops_animation:
  "hide_in_flight (run (mount shown) [BackdropPress]) \<and>
   anim (opacity (run (mount shown) [BackdropPress, Unmount])) = None \<and>
   run (mount shown) [BackdropPress, Unmount, AnimationEnd None] =
     run (mount shown) [BackdropPress, Unmount] \<and>
   dismissals (calls (run (mount shown) [BackdropPress, Unmount, AnimationEnd None])) = 0"
  by (simp add: model_defs hide_in_flight_def dismissals_def)

section \<open>The claims\<close>

text \<open>
  C1. In every run of the component, \<open>onDismiss\<close> is called at most once for each hide
  that was started, that is for each change of the internal visibility flag from true to
  false made by \<open>hideModal\<close>: the calls of \<open>onDismiss\<close>, plus one while a hide animation
  is in flight, never exceed the hide animations started. A step calls \<open>onDismiss\<close> only
  when it is the end of the animation in flight (\<open>finished = true\<close>) and that animation is
  a hide. A completion callback called with \<open>finished = false\<close> changes nothing. When the
  intent goes from false to true, also while a hide animation is in flight, the show
  replaces the animation in flight, \<open>onDismiss\<close> is not called, neither then nor when the
  show ends, and the component stays rendered.
\<close>

theorem C1_onDismiss_once_per_hide:
  "let s = run (mount p) es in
     dismissals (calls s) + (if hide_in_flight s then 1 else 0) \<le> hide_starts (calls s) \<and>
     (\<forall>e. hide_starts (calls (step e s)) \<le> Suc (hide_starts (calls s)) \<and>
          (hide_starts (calls (step e s)) \<noteq> hide_starts (calls s) \<longrightarrow>
             visibleRef s \<and> \<not> visibleRef (step e s) \<and> hide_in_flight (step e s))) \<and>
     (\<forall>e. dismissals (calls (step e s)) =
            dismissals (calls s) +
            (if (\<exists>r. e = AnimationEnd r) \<and> hide_in_flight s then 1 else 0)) \<and>
     (\<forall>cb. run_callback cb False s = s) \<and>
     (\<forall>q. mounted s \<and> visible q \<and> \<not> visible (props s) \<longrightarrow>
        (let s' = step (Owner_render q) s in
           \<not> hide_in_flight s' \<and> anim (opacity s') \<noteq> None \<and>
           dismissals (calls s') = dismissals (calls s) \<and> rendered s' \<and> tree s' \<noteq> None \<and>
           (\<forall>r. dismissals (calls (step (AnimationEnd r) s')) = dismissals (calls s) \<and>
                rendered (step (AnimationEnd r) s') \<and>
                tree (step (AnimationEnd r) s') \<noteq> None)))"
proof -
  define s where "s = run (mount p) es"
  have c: "consistent s" unfolding s_def by (rule consistent_reachable)
  have 1: "dismissals (calls s) + (if hide_in_flight s then 1 else 0) \<le> hide_starts (calls s)"
    by (rule consistentD(7) [OF c])
  have 2: "hide_starts (calls (step e s)) \<le> Suc (hide_starts (calls s)) \<and>
          (hide_starts (calls (step e s)) \<noteq> hide_starts (calls s) \<longrightarrow>
             visibleRef s \<and> \<not> visibleRef (step e s) \<and> hide_in_flight (step e s))" for e
    using hide_start_clears_flag [OF c, of e]
    by (simp add: calls_step [OF c]) (simp add: hide_starts_step_calls)
  have 3: "dismissals (calls (step e s)) =
            dismissals (calls s) +
            (if (\<exists>r. e = AnimationEnd r) \<and> hide_in_flight s then 1 else 0)" for e
    by (simp only: calls_step [OF c] dismissals_simps dismissals_step_calls)
  have 5: "\<not> hide_in_flight s' \<and> anim (opacity s') \<noteq> None \<and>
           dismissals (calls s') = dismissals (calls s) \<and> rendered s' \<and> tree s' \<noteq> None \<and>
           (\<forall>r. dismissals (calls (step (AnimationEnd r) s')) = dismissals (calls s) \<and>
                rendered (step (AnimationEnd r) s') \<and>
                tree (step (AnimationEnd r) s') \<noteq> None)"
    if m: "mounted s" and q: "visible q" "\<not> visible (props s)"
      and s': "s' = step (Owner_render q) s" for q s'
  proof -
    have c': "consistent s'" unfolding s' by (rule consistent_step [OF c])
    have sn: "shows_now (s\<lparr>props := q\<rparr>)" using q by (simp add: shows_now_props [OF c])
    have o: "opacity s' = interrupted (opacity s) (show_animation (scale q))"
      and r: "rendered s'" and m': "mounted s'"
      using m sn q by (simp_all add: s' commit_fields)
    have a: "anim (opacity s') = Some (show_animation (scale q))"
      by (simp add: o interrupted_def)
    have h: "\<not> hide_in_flight s'"
      by (simp add: hide_in_flight_def a show_animation_def)
    have t: "tree s' \<noteq> None"
      using consistentD(4) [OF c'] r m' by (simp add: render_result_def)
    have d: "dismissals (calls s') = dismissals (calls s)"
      using 3 [of "Owner_render q"] by (simp add: s')
    have e: "animation_end r s' =
        s'\<lparr>opacity := \<lparr>current = Some (toValue (config (show_animation (scale q)))), anim = None\<rparr>\<rparr>"
      for r
      by (simp add: animation_end_show [OF a] show_animation_def)
    show ?thesis using h a t d r by (simp add: e)
  qed
  show ?thesis
    unfolding Let_def s_def [symmetric]
    using 1 2 3 5 run_callback_unfinished by blast
qed

theorem C1_onDismiss_once_per_hide_witness:
  "hide_in_flight (run (mount shown) [BackdropPress, Owner_render hidden]) \<and>
   \<not> visible (props (run (mount shown) [BackdropPress, Owner_render hidden])) \<and>
   dismissals (calls (run (mount shown) [BackdropPress, Owner_render hidden])) = 0 \<and>
   hide_starts (calls (run (mount shown) [BackdropPress, Owner_render hidden])) = 1 \<and>
   \<not> hide_in_flight (run (mount shown) [BackdropPress, Owner_render hidden, Owner_render shown]) \<and>
   rendered (run (mount shown)
     [BackdropPress, Owner_render hidden, Owner_render shown, AnimationEnd None]) \<and>
   dismissals (calls (run (mount shown)
     [BackdropPress, Owner_render hidden, Owner_render shown, AnimationEnd None])) = 0"
proof -
  let ?s = "run (mount shown) [BackdropPress, Owner_render hidden]"
  have run: "run (mount shown) [BackdropPress, Owner_render hidden, Owner_render shown] =
      step (Owner_render shown) ?s"
    "run (mount shown) [BackdropPress, Owner_render hidden, Owner_render shown, AnimationEnd None] =
      step (AnimationEnd None) (step (Owner_render shown) ?s)"
    by simp_all
  have s: "mounted ?s \<and> visible shown \<and> \<not> visible (props ?s)"
    "hide_in_flight ?s" "dismissals (calls ?s) = 0" "hide_starts (calls ?s) = 1"
    unfolding fading_out
    by (simp_all add: hide_in_flight_def hide_animation_def show_animation_def shown_def hidden_def)
  from C1_onDismiss_once_per_hide [of shown "[BackdropPress, Owner_render hidden]"] s(1)
  have "\<not> hide_in_flight (step (Owner_render shown) ?s) \<and>
      rendered (step (AnimationEnd None) (step (Owner_render shown) ?s)) \<and>
      dismissals (calls (step (AnimationEnd None) (step (Owner_render shown) ?s))) =
        dismissals (calls ?s)"
    unfolding Let_def by blast
  with s show ?thesis unfolding run by simp
qed

text \<open>
  C2. In every state of a run, \<open>rendered\<close> is true whenever the visibility intent is true.
  \<open>rendered\<close> and the opacity change only through the show and hide logic: \<open>rendered\<close>
  becomes true only in a render in which the intent has become true, and false only at the
  end of a hide animation; the opacity changes only when an animation ends, when
  \<open>showModal\<close> or \<open>hideModal\<close> starts one, or when the unmount stops the one in flight,
  which leaves \<open>rendered\<close> as it is; a render by the owner sets \<open>rendered\<close> only
  through lines 63 to 65, leaves the opacity alone when the intent is unchanged, and on a
  change of the intent to true does to the opacity what \<open>showModal\<close> does. There is a
  state, during a fade-out, in which \<open>rendered\<close> is true and the intent is false.
\<close>

theorem C2_rendered_invariant:
  "let s = run (mount p) es in
     (visible (props s) \<longrightarrow> rendered s) \<and>
     (\<forall>e. (rendered (step e s) \<and> \<not> rendered s \<longrightarrow>
             visible (props (step e s)) \<and> \<not> visible (props s)) \<and>
          (\<not> rendered (step e s) \<and> rendered s \<longrightarrow>
             (\<exists>r. e = AnimationEnd r) \<and> hide_in_flight s) \<and>
          (opacity (step e s) \<noteq> opacity s \<longrightarrow>
             (\<exists>r. e = AnimationEnd r) \<or> e = Unmount \<or>
             (\<exists>a. Timing_start a \<in> set (new_calls s (step e s))))) \<and>
     rendered (step Unmount s) = rendered s \<and>
     opacity (step Unmount s) =
       (if mounted s \<and> anim (opacity s) \<noteq> None then \<lparr>current = None, anim = None\<rparr>
        else opacity s) \<and>
     (\<forall>q. rendered (step (Owner_render q) s) = (rendered s \<or> mounted s \<and> visible q) \<and>
          (visible q = visible (props s) \<longrightarrow>
             opacity (step (Owner_render q) s) = opacity s) \<and>
          (mounted s \<and> visible q \<and> \<not> visible (props s) \<longrightarrow>
             opacity (step (Owner_render q) s) = opacity (showModal (scale q) s))) \<and>
     (\<exists>q fs. rendered (run (mount q) fs) \<and> \<not> visible (props (run (mount q) fs)) \<and>
        hide_in_flight (run (mount q) fs))"
proof -
  define s where "s = run (mount p) es"
  have c: "consistent s" unfolding s_def by (rule consistent_reachable)
  have 1: "visible (props s) \<longrightarrow> rendered s"
    using consistentD(1) [OF c] by blast
  have 2: "(rendered (step e s) \<and> \<not> rendered s \<longrightarrow>
             visible (props (step e s)) \<and> \<not> visible (props s)) \<and>
          (\<not> rendered (step e s) \<and> rendered s \<longrightarrow>
             (\<exists>r. e = AnimationEnd r) \<and> hide_in_flight s)" for e
    using 1 consistentD(3) [OF c]
    unfolding rendered_step [OF c] props_step [OF c]
    by (cases e) (auto split: option.splits)
  have 3: "opacity (step e s) \<noteq> opacity s \<longrightarrow>
             (\<exists>r. e = AnimationEnd r) \<or> e = Unmount \<or>
             (\<exists>a. Timing_start a \<in> set (new_calls s (step e s)))" for e
    using opacity_step [OF c, of e] unfolding new_calls_step [OF c] by blast
  have 6: "rendered (step Unmount s) = rendered s \<and>
     opacity (step Unmount s) =
       (if mounted s \<and> anim (opacity s) \<noteq> None then \<lparr>current = None, anim = None\<rparr>
        else opacity s)"
    by (simp add: unmount_fields)
  have 4: "rendered (step (Owner_render q) s) = (rendered s \<or> mounted s \<and> visible q) \<and>
          (visible q = visible (props s) \<longrightarrow>
             opacity (step (Owner_render q) s) = opacity s) \<and>
          (mounted s \<and> visible q \<and> \<not> visible (props s) \<longrightarrow>
             opacity (step (Owner_render q) s) = opacity (showModal (scale q) s))" for q
    by (cases "mounted s")
      (simp_all add: commit_fields shows_now_props [OF c] showModal_fields)
  have 5: "\<exists>q fs. rendered (run (mount q) fs) \<and> \<not> visible (props (run (mount q) fs)) \<and>
        hide_in_flight (run (mount q) fs)"
  proof (intro exI conjI)
    show "rendered (run (mount shown) [BackdropPress, Owner_render hidden])"
      unfolding fading_out by simp
    show "\<not> visible (props (run (mount shown) [BackdropPress, Owner_render hidden]))"
      unfolding fading_out by (simp add: hidden_def)
    show "hide_in_flight (run (mount shown) [BackdropPress, Owner_render hidden])"
      unfolding fading_out by (simp add: hide_in_flight_def hide_animation_def)
  qed
  from 1 2 3 4 5 6 show ?thesis
    unfolding Let_def s_def [symmetric] by blast
qed

theorem C2_rendered_invariant_witness:
  "visible (props (run (mount shown) [BackdropPress])) \<and>
   rendered (run (mount shown) [BackdropPress]) \<and>
   \<not> rendered (step (AnimationEnd (Some hidden)) (run (mount shown) [BackdropPress])) \<and>
   hide_in_flight (run (mount shown) [BackdropPress])"
proof -
  define sh where "sh = run (mount shown) [BackdropPress]"
  have e: "step (AnimationEnd (Some hidden)) sh =
      run (mount shown) [BackdropPress, AnimationEnd (Some hidden)]"
    by (simp add: sh_def)
  have v: "visible (props sh)"
    by (simp add: sh_def hide_requested del: run.simps) (simp add: shown_def)
  have n: "\<not> rendered (step (AnimationEnd (Some hidden)) sh)"
    unfolding e dismissed by simp
  from C2_rendered_invariant [of shown "[BackdropPress]", folded sh_def] v n
  have "rendered sh \<and> hide_in_flight sh"
    unfolding Let_def by blast
  with v n show ?thesis
    unfolding sh_def [symmetric] by blast
qed

text \<open>
  C3, as the claim states it, fails: during a fade-out with the visibility intent false
  the render returns the elements, not \<open>null\<close>. What the render tests at line 129 is
  \<open>rendered\<close>, not the intent.
\<close>

theorem C3_render_null_counterexample:
  "\<not> visible (props (run (mount shown) [BackdropPress, Owner_render hidden])) \<and>
   hide_in_flight (run (mount shown) [BackdropPress, Owner_render hidden]) \<and>
   render_result (run (mount shown) [BackdropPress, Owner_render hidden]) \<noteq> None \<and>
   tree (run (mount shown) [BackdropPress, Owner_render hidden]) \<noteq> None \<and>
   tree (Modal_render (run (mount shown) [BackdropPress, Owner_render hidden])) \<noteq> None"
  unfolding fading_out
  by (simp add: hide_in_flight_def hide_animation_def render_result_def Modal_render_fields)
    (simp add: hidden_def)

text \<open>
  C3, amended. The render produces no output exactly when \<open>rendered\<close> is false after the
  update of lines 63 to 65, that is when \<open>rendered\<close> and the visibility intent are both
  false. In every state of a run of a mounted component the committed output is empty
  exactly when \<open>rendered\<close> is false, and then the intent is false; while the intent is
  false and \<open>rendered\<close> is still true the elements are there and take no pointer input.
\<close>

theorem C3_render_null:
  "(tree (Modal_render t) = None) = (\<not> rendered t \<and> \<not> visible (props t)) \<and>
   (let s = run (mount p) es in
      (render_result s = None) = (\<not> rendered s) \<and>
      (mounted s \<longrightarrow> (tree s = None) = (\<not> rendered s)) \<and>
      (\<not> rendered s \<longrightarrow> \<not> visible (props s) \<and> tree s = None) \<and>
      (mounted s \<and> rendered s \<and> \<not> visible (props s) \<longrightarrow>
         map_option pointerEvents (tree s) = Some Pointer_none))"
proof -
  define s where "s = run (mount p) es"
  have c: "consistent s" unfolding s_def by (rule consistent_reachable)
  have 0: "(tree (Modal_render t) = None) = (\<not> rendered t \<and> \<not> visible (props t))"
    by (simp add: Modal_render_fields render_result_def)
  have 1: "(render_result s = None) = (\<not> rendered s)"
    by (simp add: render_result_def)
  have t: "tree s = (if mounted s then render_result s else None)"
    by (rule consistentD(4) [OF c])
  have 2: "mounted s \<longrightarrow> (tree s = None) = (\<not> rendered s)"
    unfolding t by (simp add: render_result_def)
  have 3: "\<not> rendered s \<longrightarrow> \<not> visible (props s) \<and> tree s = None"
    using consistentD(1) [OF c] unfolding t by (auto simp: render_result_def)
  have 4: "mounted s \<and> rendered s \<and> \<not> visible (props s) \<longrightarrow>
         map_option pointerEvents (tree s) = Some Pointer_none"
    unfolding t by (simp add: render_result_def)
  from 0 1 2 3 4 show ?thesis
    unfolding Let_def s_def [symmetric] by blast
qed

theorem C3_render_null_witness:
  "mounted (run (mount shown) [BackdropPress, Owner_render hidden]) \<and>
   rendered (run (mount shown) [BackdropPress, Owner_render hidden]) \<and>
   \<not> visible (props (run (mount shown) [BackdropPress, Owner_render hidden])) \<and>
   map_option pointerEvents (tree (run (mount shown) [BackdropPress, Owner_render hidden])) =
     Some Pointer_none \<and>
   \<not> rendered (run (mount shown) [BackdropPress, AnimationEnd (Some hidden)]) \<and>
   tree (run (mount shown) [BackdropPress, AnimationEnd (Some hidden)]) = None"
proof -
  define sf where "sf = run (mount shown) [BackdropPress, Owner_render hidden]"
  define sd where "sd = run (mount shown) [BackdropPress, AnimationEnd (Some hidden)]"
  have f: "mounted sf \<and> rendered sf \<and> \<not> visible (props sf)"
    unfolding sf_def fading_out by (simp add: hidden_def)
  have d: "\<not> rendered sd"
    unfolding sd_def dismissed by simp
  have 1: "map_option pointerEvents (tree sf) = Some Pointer_none"
    using C3_render_null [of sf shown "[BackdropPress, Owner_render hidden]", folded sf_def] f
    unfolding Let_def by blast
  have 2: "tree sd = None"
    using C3_render_null [of sd shown "[BackdropPress, AnimationEnd (Some hidden)]", folded sd_def] d
    unfolding Let_def by blast
  from f d 1 2 show ?thesis
    unfolding sf_def [symmetric] sd_def [symmetric] by blast
qed

text \<open>
  C4. The back button handler always returns true. In every state of a run in which the
  component is mounted and the visibility intent is true, a back button signal reaches
  the handler and is reported as consumed; the handler calls \<open>hideModal\<close> when
  \<open>dismissable\<close> or \<open>dismissableBackButton\<close> is true, and only then: when both are false
  the state does not change, a hide animation is started only when one of them is true,
  and it is started when one of them is true and the internal visibility flag is true.
\<close>

theorem C4_back_button:
  "fst (onHardwareBackPress h t) \<and>
   (let s = run (mount p) es in
      mounted s \<and> visible (props s) \<longrightarrow>
        fst (hardware_back_press s) \<and>
        snd (hardware_back_press s) =
          (if dismissable (props s) \<or> dismissableBackButton (props s)
           then hideModal (hideModal_of s) s else s) \<and>
        step HardwareBackPress s = snd (hardware_back_press s) \<and>
        (hide_starts (calls (step HardwareBackPress s)) \<noteq> hide_starts (calls s) \<longrightarrow>
           dismissable (props s) \<or> dismissableBackButton (props s)) \<and>
        ((dismissable (props s) \<or> dismissableBackButton (props s)) \<and> visibleRef s \<longrightarrow>
           hide_in_flight (step HardwareBackPress s) \<and>
           hide_starts (calls (step HardwareBackPress s)) = Suc (hide_starts (calls s))))"
proof -
  define s where "s = run (mount p) es"
  have c: "consistent s" unfolding s_def by (rule consistent_reachable)
  have "fst (hardware_back_press s) \<and>
        snd (hardware_back_press s) =
          (if dismissable (props s) \<or> dismissableBackButton (props s)
           then hideModal (hideModal_of s) s else s) \<and>
        step HardwareBackPress s = snd (hardware_back_press s) \<and>
        (hide_starts (calls (step HardwareBackPress s)) \<noteq> hide_starts (calls s) \<longrightarrow>
           dismissable (props s) \<or> dismissableBackButton (props s)) \<and>
        ((dismissable (props s) \<or> dismissableBackButton (props s)) \<and> visibleRef s \<longrightarrow>
           hide_in_flight (step HardwareBackPress s) \<and>
           hide_starts (calls (step HardwareBackPress s)) = Suc (hide_starts (calls s)))"
    if m: "mounted s" and v: "visible (props s)"
  proof -
    have 1: "hardware_back_press s =
        (True, if dismissable (props s) \<or> dismissableBackButton (props s)
               then hideModal (hideModal_of s) s else s)"
      using v by (simp add: hardware_back_press_eq [OF c m])
    have 2: "hide_starts (calls (step HardwareBackPress s)) =
        hide_starts (calls s) +
          (if visibleRef s \<and> (dismissable (props s) \<or> dismissableBackButton (props s))
           then 1 else 0)"
      using m by (simp add: calls_step [OF c] hide_starts_step_calls del: step.simps)
    have 3: "hide_in_flight (step HardwareBackPress s)"
      if "(dismissable (props s) \<or> dismissableBackButton (props s)) \<and> visibleRef s"
    proof -
      have "hide_starts (step_calls HardwareBackPress s) \<noteq> 0"
        using that m by (simp add: hide_starts_step_calls)
      from hide_start_clears_flag [OF c this] show ?thesis by blast
    qed
    have 4: "step HardwareBackPress s = snd (hardware_back_press s)"
      using m by simp
    have a: "fst (hardware_back_press s)"
      and b: "snd (hardware_back_press s) =
          (if dismissable (props s) \<or> dismissableBackButton (props s)
           then hideModal (hideModal_of s) s else s)"
      by (simp_all only: 1 fst_conv snd_conv)
    have d: "hide_starts (calls (step HardwareBackPress s)) \<noteq> hide_starts (calls s) \<longrightarrow>
           dismissable (props s) \<or> dismissableBackButton (props s)"
      unfolding 2 by (simp split: if_splits)
    have e: "(dismissable (props s) \<or> dismissableBackButton (props s)) \<and> visibleRef s \<longrightarrow>
           hide_in_flight (step HardwareBackPress s) \<and>
           hide_starts (calls (step HardwareBackPress s)) = Suc (hide_starts (calls s))"
    proof
      assume f: "(dismissable (props s) \<or> dismissableBackButton (props s)) \<and> visibleRef s"
      then have "hide_starts (calls (step HardwareBackPress s)) = Suc (hide_starts (calls s))"
        unfolding 2 by simp
      with 3 [OF f] show "hide_in_flight (step HardwareBackPress s) \<and>
           hide_starts (calls (step HardwareBackPress s)) = Suc (hide_starts (calls s))" ..
    qed
    show ?thesis
      by (rule conjI [OF a conjI [OF b conjI [OF 4 conjI [OF d e]]]])
  qed
  moreover have "fst (onHardwareBackPress h t)"
    by (simp add: onHardwareBackPress_def)
  ultimately show ?thesis
    unfolding Let_def s_def [symmetric] by blast
qed

theorem C4_back_button_witness:
  "mounted (run (mount locked) []) \<and> visible (props (run (mount locked) [])) \<and>
   hardware_back_press (run (mount locked) []) = (True, run (mount locked) []) \<and>
   mounted (run (mount shown) []) \<and> visible (props (run (mount shown) [])) \<and>
   visibleRef (run (mount shown) []) \<and>
   fst (hardware_back_press (run (mount shown) [])) \<and>
   hide_in_flight (step HardwareBackPress (run (mount shown) [])) \<and>
   hide_starts (calls (step HardwareBackPress (run (mount shown) []))) = 1"
proof -
  define sl where "sl = run (mount locked) []"
  define ss where "ss = run (mount shown) []"
  have l: "mounted sl \<and> visible (props sl)"
    and l': "\<not> (dismissable (props sl) \<or> dismissableBackButton (props sl))"
    by (simp_all add: sl_def mounted_locked) (simp_all add: locked_def)
  have s: "mounted ss \<and> visible (props ss)"
    and s': "(dismissable (props ss) \<or> dismissableBackButton (props ss)) \<and> visibleRef ss"
    and s'': "hide_starts (calls ss) = 0"
    by (simp_all add: ss_def mounted_shown show_animation_def) (simp_all add: shown_def)
  have "fst (hardware_back_press sl) \<and>
      snd (hardware_back_press sl) =
        (if dismissable (props sl) \<or> dismissableBackButton (props sl)
         then hideModal (hideModal_of sl) sl else sl)"
    using C4_back_button [of "onHardwareBackPress_of sl" sl locked "[]", folded sl_def] l
    unfolding Let_def by blast
  then have 1: "hardware_back_press sl = (True, sl)"
    using l' by (cases "hardware_back_press sl") simp
  have 2: "fst (hardware_back_press ss) \<and>
      ((dismissable (props ss) \<or> dismissableBackButton (props ss)) \<and> visibleRef ss \<longrightarrow>
           hide_in_flight (step HardwareBackPress ss) \<and>
           hide_starts (calls (step HardwareBackPress ss)) = Suc (hide_starts (calls ss)))"
    using C4_back_button [of "onHardwareBackPress_of ss" ss shown "[]", folded ss_def] s
    unfolding Let_def by blast
  with s' have 3: "hide_in_flight (step HardwareBackPress ss)"
    "hide_starts (calls (step HardwareBackPress ss)) = Suc (hide_starts (calls ss))"
    by blast+
  from l s s' 1 2 3 s'' show ?thesis
    unfolding sl_def [symmetric] ss_def [symmetric] by (simp del: step.simps)
qed

text \<open>
  C5. The claim has two halves. The first holds: \<open>hideModal\<close> returns the state
  unchanged whenever the \<open>rendered\<close> it closes over is false or the internal visibility
  flag is already false (\<open>hideModal_guard\<close> below). The second, that dismissal triggers
  which overlap never start a second hide sequence, is what the guard of lines 77 to 80
  is there for, and the code does not keep it: the effect of lines 53 to 55 sets the flag
  to the intent again at every render. In the run below the component is mounted visible,
  the backdrop is pressed, the owner renders the component with the same props while the
  fade-out is in flight, and the backdrop is pressed again. After the first press the
  hide is in flight and the flag is false; the render starts nothing and sets the flag;
  the second press then starts a second hide animation while the first is in flight.
  Without the render in between the second press starts nothing.
\<close>

theorem C5_duplicate_hide_after_render:
  "hide_in_flight (run (mount shown) [BackdropPress]) \<and>
   \<not> visibleRef (run (mount shown) [BackdropPress]) \<and>
   hide_starts (calls (run (mount shown) [BackdropPress])) = 1 \<and>
   hide_in_flight (run (mount shown) [BackdropPress, Owner_render shown]) \<and>
   visibleRef (run (mount shown) [BackdropPress, Owner_render shown]) \<and>
   new_calls (run (mount shown) [BackdropPress])
     (run (mount shown) [BackdropPress, Owner_render shown]) = [] \<and>
   new_calls (run (mount shown) [BackdropPress, Owner_render shown])
     (run (mount shown) [BackdropPress, Owner_render shown, BackdropPress]) =
     [Timing_start
        \<lparr>config = \<lparr>toValue = 0, duration = 220, easing = Easing_out Easing_cubic,
                   useNativeDriver = True\<rparr>,
         callback = Hide_callback\<rparr>] \<and>
   hide_starts (calls (run (mount shown) [BackdropPress, Owner_render shown, BackdropPress])) = 2 \<and>
   hide_starts (calls (run (mount shown) [BackdropPress, BackdropPress])) = 1"
  by (simp add: model_defs hide_in_flight_def hide_starts_def new_calls_def)

text \<open>
  What the guard gives. \<open>hideModal\<close> is the identity under either condition of lines 77
  and 78; in every state of a run in which the component is not rendered or the flag is
  false, a press on the backdrop, a back button signal and an escape gesture change
  nothing; and a sequence of events that are all dismissal triggers, with no other render
  in between, starts at most one hide animation, and none when the flag is already false.
\<close>

lemma hideModal_guard:
  "(\<not> hm_rendered c \<or> \<not> visibleRef t \<longrightarrow> hideModal c t = t) \<and>
   (let s = run (mount p) es in
      (\<not> rendered s \<or> \<not> visibleRef s \<longrightarrow>
         step BackdropPress s = s \<and> step HardwareBackPress s = s \<and>
         step AccessibilityEscape s = s) \<and>
      ((\<forall>e \<in> set ts. dismissal_trigger e) \<longrightarrow>
         hide_starts (calls (run s ts))
           \<le> hide_starts (calls s) + (if visibleRef s then 1 else 0)))"
proof -
  define s where "s = run (mount p) es"
  have c: "consistent s" unfolding s_def by (rule consistent_reachable)
  have 1: "hide_starts (calls (run s ts)) \<le> hide_starts (calls s) + (if visibleRef s then 1 else 0)"
    if "\<forall>e \<in> set ts. dismissal_trigger e"
    using trigger_run [OF c that] by simp
  have 2: "step BackdropPress s = s \<and> step HardwareBackPress s = s \<and>
         step AccessibilityEscape s = s"
    if "\<not> rendered s \<or> \<not> visibleRef s"
  proof (cases "mounted s")
    case False
    then show ?thesis by simp
  next
    case True
    from that consistentD(1,2) [OF c] have "\<not> visibleRef s" by blast
    then have "hideModal (hideModal_of s) s = s" by (simp add: hideModal_noop)
    then show ?thesis
      unfolding step_dismissal_eq [OF c True] by simp
  qed
  from 1 2 hideModal_noop [of c t] show ?thesis
    unfolding Let_def s_def [symmetric] by blast
qed

text \<open>
  C6, as the claim states it, fails: while the fade-out started by a first press on the
  backdrop is in flight, the component is rendered, \<open>dismissable\<close> is true, the backdrop
  takes the press, and the press starts nothing and leaves the state as it is, since
  \<open>hideModal\<close> returns at line 78.
\<close>

theorem C6_backdrop_press_counterexample:
  "rendered (run (mount shown) [BackdropPress]) \<and>
   mounted (run (mount shown) [BackdropPress]) \<and>
   dismissable (props (run (mount shown) [BackdropPress])) \<and>
   map_option pointerEvents (tree (run (mount shown) [BackdropPress])) = Some Pointer_auto \<and>
   map_option disabled (tree (run (mount shown) [BackdropPress])) = Some False \<and>
   step BackdropPress (run (mount shown) [BackdropPress]) = run (mount shown) [BackdropPress] \<and>
   new_calls (run (mount shown) [BackdropPress])
     (step BackdropPress (run (mount shown) [BackdropPress])) = []"
proof -
  define sh where "sh = run (mount shown) [BackdropPress]"
  note eq = hide_requested [folded sh_def]
  have 1: "rendered sh \<and> mounted sh \<and> dismissable (props sh) \<and>
      map_option pointerEvents (tree sh) = Some Pointer_auto \<and>
      map_option disabled (tree sh) = Some False"
    by (simp add: eq) (simp add: shown_def)
  have 2: "step BackdropPress sh = sh"
    by (simp add: eq backdrop_press_def hideModal_def)
  have 3: "new_calls sh (step BackdropPress sh) = []"
    unfolding 2 by (simp add: new_calls_def)
  from 1 2 3 show ?thesis
    unfolding sh_def [symmetric] by blast
qed

text \<open>
  C6, amended. In every rendered state of a run: a press on the backdrop when
  \<open>dismissable\<close> is false changes nothing; when \<open>dismissable\<close> is true the press calls
  \<open>hideModal\<close>, which starts the hide animation when the internal visibility flag is still
  true, and changes nothing when that flag is already false.
\<close>

theorem C6_backdrop_press:
  "let s = run (mount p) es in
     mounted s \<and> rendered s \<longrightarrow>
       (\<not> dismissable (props s) \<longrightarrow> step BackdropPress s = s) \<and>
       (dismissable (props s) \<longrightarrow> step BackdropPress s = hideModal (hideModal_of s) s) \<and>
       (dismissable (props s) \<and> visibleRef s \<longrightarrow>
          hide_in_flight (step BackdropPress s) \<and> \<not> visibleRef (step BackdropPress s) \<and>
          new_calls s (step BackdropPress s) =
            [Timing_start
               \<lparr>config = \<lparr>toValue = 0, duration = scale (props s) * DEFAULT_DURATION,
                          easing = Easing_out Easing_cubic, useNativeDriver = True\<rparr>,
                callback = Hide_callback\<rparr>]) \<and>
       (\<not> visibleRef s \<longrightarrow> step BackdropPress s = s)"
proof -
  define s where "s = run (mount p) es"
  have c: "consistent s" unfolding s_def by (rule consistent_reachable)
  have "(\<not> dismissable (props s) \<longrightarrow> step BackdropPress s = s) \<and>
       (dismissable (props s) \<longrightarrow> step BackdropPress s = hideModal (hideModal_of s) s) \<and>
       (dismissable (props s) \<and> visibleRef s \<longrightarrow>
          hide_in_flight (step BackdropPress s) \<and> \<not> visibleRef (step BackdropPress s) \<and>
          new_calls s (step BackdropPress s) =
            [Timing_start
               \<lparr>config = \<lparr>toValue = 0, duration = scale (props s) * DEFAULT_DURATION,
                          easing = Easing_out Easing_cubic, useNativeDriver = True\<rparr>,
                callback = Hide_callback\<rparr>]) \<and>
       (\<not> visibleRef s \<longrightarrow> step BackdropPress s = s)"
    if m: "mounted s"
  proof -
    have e: "step BackdropPress s =
        (if dismissable (props s) then hideModal (hideModal_of s) s else s)"
      by (rule step_dismissal_eq(1) [OF c m])
    have n: "new_calls s (step BackdropPress s) =
        [Timing_start
               \<lparr>config = \<lparr>toValue = 0, duration = scale (props s) * DEFAULT_DURATION,
                          easing = Easing_out Easing_cubic, useNativeDriver = True\<rparr>,
                callback = Hide_callback\<rparr>]"
      and h: "hide_in_flight (step BackdropPress s) \<and> \<not> visibleRef (step BackdropPress s)"
      if d: "dismissable (props s) \<and> visibleRef s"
    proof -
      show "new_calls s (step BackdropPress s) =
        [Timing_start
               \<lparr>config = \<lparr>toValue = 0, duration = scale (props s) * DEFAULT_DURATION,
                          easing = Easing_out Easing_cubic, useNativeDriver = True\<rparr>,
                callback = Hide_callback\<rparr>]"
        using d m
        by (simp add: new_calls_step [OF c] step_calls_def hide_animation_def
            DEFAULT_DURATION_def del: step.simps)
      have "hide_starts (step_calls BackdropPress s) \<noteq> 0"
        using d m by (simp add: hide_starts_step_calls)
      from hide_start_clears_flag [OF c this]
      show "hide_in_flight (step BackdropPress s) \<and> \<not> visibleRef (step BackdropPress s)"
        by blast
    qed
    have i: "step BackdropPress s = s" if "\<not> visibleRef s"
      unfolding e using that by (simp add: hideModal_noop)
    from e n h i show ?thesis by (auto simp del: step.simps)
  qed
  then show ?thesis
    unfolding Let_def s_def [symmetric] by blast
qed

theorem C6_backdrop_press_witness:
  "mounted (run (mount locked) []) \<and> rendered (run (mount locked) []) \<and>
   \<not> dismissable (props (run (mount locked) [])) \<and>
   step BackdropPress (run (mount locked) []) = run (mount locked) [] \<and>
   mounted (run (mount shown) []) \<and> rendered (run (mount shown) []) \<and>
   dismissable (props (run (mount shown) [])) \<and> visibleRef (run (mount shown) []) \<and>
   hide_in_flight (step BackdropPress (run (mount shown) [])) \<and>
   \<not> visibleRef (step BackdropPress (run (mount shown) [])) \<and>
   step BackdropPress (step BackdropPress (run (mount shown) [])) =
     step BackdropPress (run (mount shown) [])"
proof -
  define sl where "sl = run (mount locked) []"
  define ss where "ss = run (mount shown) []"
  define sh where "sh = run (mount shown) [BackdropPress]"
  have sh: "sh = step BackdropPress ss" by (simp add: sh_def ss_def)
  have l: "mounted sl \<and> rendered sl" "\<not> dismissable (props sl)"
    by (simp_all add: sl_def mounted_locked) (simp_all add: locked_def)
  have s: "mounted ss \<and> rendered ss" "dismissable (props ss) \<and> visibleRef ss"
    by (simp_all add: ss_def mounted_shown) (simp_all add: shown_def)
  have h: "mounted sh \<and> rendered sh" "\<not> visibleRef sh"
    by (simp_all add: sh_def hide_requested del: run.simps)
  have 1: "step BackdropPress sl = sl"
    using C6_backdrop_press [of locked "[]", folded sl_def] l unfolding Let_def by blast
  have 2: "hide_in_flight (step BackdropPress ss) \<and> \<not> visibleRef (step BackdropPress ss)"
    using C6_backdrop_press [of shown "[]", folded ss_def] s unfolding Let_def by blast
  have 3: "step BackdropPress sh = sh"
    using C6_backdrop_press [of shown "[BackdropPress]", folded sh_def] h unfolding Let_def by blast
  from l s 1 2 3 show ?thesis
    unfolding sl_def [symmetric] ss_def [symmetric] sh [symmetric] by (simp del: step.simps)
qed

text \<open>
  C7. In every state of a run the marker \<open>prevVisible\<close> holds the visibility intent of the
  last render. A render by the owner with the intent unchanged starts no animation, leaves
  the opacity and \<open>rendered\<close> as they are and neither mounts nor unmounts the content;
  rendering twice with the same props gives the state of rendering once. In a render by
  the owner the test of line 119 succeeds exactly when the intent differs from that of
  the last render, and the marker is the new intent afterwards, so the next render with
  that intent does not detect a change; a change to true starts exactly one show
  animation.
\<close>

theorem C7_rerender_idempotent:
  "let s = run (mount p) es in
     prevVisible s = Some (visible (props s)) \<and>
     (\<forall>q. mounted s \<and> visible q = visible (props s) \<longrightarrow>
        new_calls s (step (Owner_render q) s) = [] \<and>
        opacity (step (Owner_render q) s) = opacity s \<and>
        rendered (step (Owner_render q) s) = rendered s \<and>
        mounted (step (Owner_render q) s) \<and>
        (tree (step (Owner_render q) s) = None) = (tree s = None)) \<and>
     (\<forall>q. step (Owner_render q) (step (Owner_render q) s) = step (Owner_render q) s) \<and>
     (\<forall>q. mounted s \<longrightarrow>
        step (Owner_render q) s = effect_prevVisible (before_effect_prevVisible q s) \<and>
        (prevVisible (before_effect_prevVisible q s) \<noteq>
           Some (visible (props (before_effect_prevVisible q s)))) =
          (visible q \<noteq> visible (props s)) \<and>
        prevVisible (step (Owner_render q) s) = Some (visible q) \<and>
        (visible q \<and> \<not> visible (props s) \<longrightarrow>
           new_calls s (step (Owner_render q) s) =
             [Timing_start
                \<lparr>config = \<lparr>toValue = 1, duration = scale q * DEFAULT_DURATION,
                           easing = Easing_out Easing_cubic, useNativeDriver = True\<rparr>,
                 callback = No_callback\<rparr>]))"
proof -
  define s where "s = run (mount p) es"
  have c: "consistent s" unfolding s_def by (rule consistent_reachable)
  note a = consistentD [OF c]
  have 1: "prevVisible s = Some (visible (props s))" by (rule a(6))
  have n: "new_calls s (step (Owner_render q) s) =
          (if visible q \<and> \<not> visible (props s)
           then [Timing_start
                   \<lparr>config = \<lparr>toValue = 1, duration = scale q * DEFAULT_DURATION,
                              easing = Easing_out Easing_cubic, useNativeDriver = True\<rparr>,
                    callback = No_callback\<rparr>]
           else [])" if "mounted s" for q
    using that
    by (simp add: new_calls_step [OF c] step_calls_def show_animation_def DEFAULT_DURATION_def
        del: step.simps)
  have 2: "new_calls s (step (Owner_render q) s) = [] \<and>
        opacity (step (Owner_render q) s) = opacity s \<and>
        rendered (step (Owner_render q) s) = rendered s \<and>
        mounted (step (Owner_render q) s) \<and>
        (tree (step (Owner_render q) s) = None) = (tree s = None)"
    if m: "mounted s" and v: "visible q = visible (props s)" for q
  proof -
    have r: "(rendered s \<or> visible q) = rendered s" using a(1) v by blast
    have "new_calls s (step (Owner_render q) s) = []"
      unfolding n [OF m] using v by simp
    moreover have "opacity (step (Owner_render q) s) = opacity s"
      using m v by (simp add: commit_fields shows_now_props [OF c])
    moreover have "rendered (step (Owner_render q) s) = rendered s"
      using m by (simp add: commit_fields r)
    moreover have "mounted (step (Owner_render q) s)"
      using m by (simp add: commit_fields)
    moreover have "(tree (step (Owner_render q) s) = None) = (tree s = None)"
      using m a(4) by (simp add: commit_fields r render_result_def)
    ultimately show ?thesis by blast
  qed
  have 3: "step (Owner_render q) (step (Owner_render q) s) = step (Owner_render q) s" for q
    by (rule Owner_render_idem [OF c])
  have 4: "step (Owner_render q) s = effect_prevVisible (before_effect_prevVisible q s) \<and>
        (prevVisible (before_effect_prevVisible q s) \<noteq>
           Some (visible (props (before_effect_prevVisible q s)))) =
          (visible q \<noteq> visible (props s)) \<and>
        prevVisible (step (Owner_render q) s) = Some (visible q)"
    if m: "mounted s" for q
  proof -
    have "step (Owner_render q) s = effect_prevVisible (before_effect_prevVisible q s)"
      using m by (simp add: commit_def before_effect_prevVisible_def)
    moreover have "(prevVisible (before_effect_prevVisible q s) \<noteq>
           Some (visible (props (before_effect_prevVisible q s)))) =
          (visible q \<noteq> visible (props s))"
      using 1
      by (auto simp: before_effect_prevVisible_def effect_backHandler_fields
          effect_visibleRef_fields Modal_render_fields)
    moreover have "prevVisible (step (Owner_render q) s) = Some (visible q)"
      using m by (simp add: commit_fields)
    ultimately show ?thesis by blast
  qed
  have 5: "new_calls s (step (Owner_render q) s) =
             [Timing_start
                \<lparr>config = \<lparr>toValue = 1, duration = scale q * DEFAULT_DURATION,
                           easing = Easing_out Easing_cubic, useNativeDriver = True\<rparr>,
                 callback = No_callback\<rparr>]"
    if "mounted s" and "visible q \<and> \<not> visible (props s)" for q
    unfolding n [OF that(1)] using that(2) by simp
  from 1 2 3 4 5 show ?thesis
    unfolding Let_def s_def [symmetric] by blast
qed

theorem C7_rerender_idempotent_witness:
  "mounted (run (mount shown) []) \<and>
   visible shown = visible (props (run (mount shown) [])) \<and>
   new_calls (run (mount shown) []) (step (Owner_render shown) (run (mount shown) [])) = [] \<and>
   opacity (step (Owner_render shown) (run (mount shown) [])) = opacity (run (mount shown) []) \<and>
   rendered (step (Owner_render shown) (run (mount shown) [])) \<and>
   step (Owner_render hidden) (step (Owner_render hidden) (run (mount shown) [])) =
     step (Owner_render hidden) (run (mount shown) []) \<and>
   prevVisible (step (Owner_render hidden) (run (mount shown) [])) = Some False"
proof -
  define ss where "ss = run (mount shown) []"
  have s: "mounted ss" "visible shown = visible (props ss)" "rendered ss" "\<not> visible hidden"
    by (simp_all add: ss_def mounted_shown) (simp_all add: shown_def hidden_def)
  note T = C7_rerender_idempotent [of shown "[]", folded ss_def, unfolded Let_def]
  from T s(1,2) have 1: "new_calls ss (step (Owner_render shown) ss) = [] \<and>
        opacity (step (Owner_render shown) ss) = opacity ss \<and>
        rendered (step (Owner_render shown) ss) = rendered ss"
    by blast
  from T have 2: "step (Owner_render hidden) (step (Owner_render hidden) ss) =
      step (Owner_render hidden) ss"
    by blast
  from T s(1) have "prevVisible (step (Owner_render hidden) ss) = Some (visible hidden)"
    by blast
  with s(4) have 3: "prevVisible (step (Owner_render hidden) ss) = Some False"
    by simp
  from s 1 2 3 show ?thesis
    unfolding ss_def [symmetric] by (simp del: step.simps)
qed

text \<open>
  C8. In every state of a run the back button listener is registered exactly when the
  component is mounted and the visibility intent is true, and it is then the handler of
  the last render (when another dependency of the effect changes, the cleanup removes the
  old handler and the effect registers the new one in the same commit). A step takes the
  component from no listener to a listener exactly when the intent becomes true, and from
  a listener to none exactly when the intent becomes false or the component is
  unmounted; the unmount removes the listener from every state.
\<close>

theorem C8_back_handler_subscription:
  "let s = run (mount p) es in
     subscription s =
       (if mounted s \<and> visible (props s) then Some (onHardwareBackPress_of s) else None) \<and>
     (subscription s \<noteq> None) = (mounted s \<and> visible (props s)) \<and>
     (\<forall>e. (subscription s = None \<and> subscription (step e s) \<noteq> None) =
            (mounted (step e s) \<and> \<not> visible (props s) \<and> visible (props (step e s))) \<and>
          (subscription s \<noteq> None \<and> subscription (step e s) = None) =
            (mounted s \<and> visible (props s) \<and>
             (\<not> visible (props (step e s)) \<or> \<not> mounted (step e s)))) \<and>
     subscription (step Unmount s) = None \<and> \<not> mounted (step Unmount s)"
proof -
  define s where "s = run (mount p) es"
  have c: "consistent s" unfolding s_def by (rule consistent_reachable)
  have 1: "subscription s =
       (if mounted s \<and> visible (props s) then Some (onHardwareBackPress_of s) else None)"
    by (rule consistentD(5) [OF c])
  then have 2: "(subscription s \<noteq> None) = (mounted s \<and> visible (props s))"
    by simp
  have 3: "(subscription s = None \<and> subscription (step e s) \<noteq> None) =
            (mounted (step e s) \<and> \<not> visible (props s) \<and> visible (props (step e s))) \<and>
          (subscription s \<noteq> None \<and> subscription (step e s) = None) =
            (mounted s \<and> visible (props s) \<and>
             (\<not> visible (props (step e s)) \<or> \<not> mounted (step e s)))" for e
  proof -
    have "subscription (step e s) =
       (if mounted (step e s) \<and> visible (props (step e s))
        then Some (onHardwareBackPress_of (step e s)) else None)"
      by (rule consistentD(5) [OF consistent_step [OF c]])
    then have 5: "(subscription (step e s) \<noteq> None) =
        (mounted (step e s) \<and> visible (props (step e s)))"
      by simp
    have m: "mounted (step e s) \<longrightarrow> mounted s"
      unfolding mounted_step [OF c] by blast
    from 2 5 m show ?thesis by blast
  qed
  have 4: "subscription (step Unmount s) = None \<and> \<not> mounted (step Unmount s)"
    using 2 by (cases "mounted s") (auto simp: unmount_fields)
  from 1 2 3 4 show ?thesis
    unfolding Let_def s_def [symmetric] by blast
qed

theorem C8_back_handler_subscription_witness:
  "subscription (run (mount hidden) []) = None \<and>
   subscription (step (Owner_render shown) (run (mount hidden) [])) \<noteq> None \<and>
   mounted (step (Owner_render shown) (run (mount hidden) [])) \<and>
   visible (props (step (Owner_render shown) (run (mount hidden) []))) \<and>
   \<not> visible (props (run (mount hidden) [])) \<and>
   subscription (run (mount shown) []) \<noteq> None \<and>
   subscription (step Unmount (run (mount shown) [])) = None"
proof -
  define s0 where "s0 = run (mount hidden) []"
  define ss where "ss = run (mount shown) []"
  have h: "\<not> visible (props s0)" "mounted s0"
    by (simp_all add: s0_def mount_def commit_fields hidden_def)
  have h': "mounted (step (Owner_render shown) s0)"
    "visible (props (step (Owner_render shown) s0))"
    using h(2) by (simp_all add: commit_fields shown_def)
  have s: "mounted ss \<and> visible (props ss)"
    by (simp add: ss_def mounted_shown) (simp add: shown_def)
  note T0 = C8_back_handler_subscription [of hidden "[]", folded s0_def, unfolded Let_def]
  note Ts = C8_back_handler_subscription [of shown "[]", folded ss_def, unfolded Let_def]
  from T0 h h' have 1: "subscription s0 = None \<and> subscription (step (Owner_render shown) s0) \<noteq> None"
    by blast
  from Ts s have 2: "subscription ss \<noteq> None \<and> subscription (step Unmount ss) = None"
    by blast
  from h h' 1 2 show ?thesis
    unfolding s0_def [symmetric] ss_def [symmetric] by blast
qed

text \<open>
  C9. \<open>showModal\<close> and \<open>hideModal\<close> start a timing animation with the same duration, the
  base constant 220 times the animation scale of the theme, and the same easing, the
  ease-out of the cubic curve; the two configurations differ only in the target value, 1
  for the show and 0 for the hide. In every run, each animation a step starts has that
  configuration, with the scale of the props of that render.
\<close>

theorem C9_animation_parameters:
  "(case anim (opacity (showModal sc t)) of
      None \<Rightarrow> False
    | Some a \<Rightarrow>
        config a = \<lparr>toValue = 1, duration = sc * 220, easing = Easing_out Easing_cubic,
                     useNativeDriver = True\<rparr>) \<and>
   (hm_rendered c \<and> visibleRef t \<longrightarrow>
      (case anim (opacity (hideModal c t)) of
         None \<Rightarrow> False
       | Some a \<Rightarrow>
           config a = \<lparr>toValue = 0, duration = hm_scale c * 220,
                        easing = Easing_out Easing_cubic, useNativeDriver = True\<rparr>)) \<and>
   (\<forall>a. Timing_start a \<in> set (new_calls (run (mount p) es) (step e (run (mount p) es))) \<longrightarrow>
        config a =
          \<lparr>toValue = (if callback a = Hide_callback then 0 else 1),
           duration = scale (props (step e (run (mount p) es))) * DEFAULT_DURATION,
           easing = Easing_out Easing_cubic, useNativeDriver = True\<rparr>)"
proof -
  have 1: "anim (opacity (showModal sc t)) = Some (show_animation sc)"
    by (simp add: showModal_fields interrupted_def)
  have 2: "anim (opacity (hideModal c t)) = Some (hide_animation (hm_scale c))"
    if "hm_rendered c \<and> visibleRef t"
    using that by (simp add: hideModal_fields interrupted_def)
  have 3: "config a =
          \<lparr>toValue = (if callback a = Hide_callback then 0 else 1),
           duration = scale (props (step e (run (mount p) es))) * DEFAULT_DURATION,
           easing = Easing_out Easing_cubic, useNativeDriver = True\<rparr>"
    if "Timing_start a \<in> set (new_calls (run (mount p) es) (step e (run (mount p) es)))" for a
    using that step_calls_config [OF consistent_reachable]
    by (simp add: new_calls_step [OF consistent_reachable])
  show ?thesis
    using 2 3 by (simp add: 1 show_animation_def hide_animation_def)
qed

theorem C9_animation_parameters_witness:
  "hm_rendered \<lparr>hm_rendered = True, hm_scale = 2\<rparr> \<and> visibleRef (mount shown) \<and>
   map_option config (anim (opacity (showModal 2 (mount shown)))) =
     Some \<lparr>toValue = 1, duration = 440, easing = Easing_out Easing_cubic,
           useNativeDriver = True\<rparr> \<and>
   map_option config
     (anim (opacity (hideModal \<lparr>hm_rendered = True, hm_scale = 2\<rparr> (mount shown)))) =
     Some \<lparr>toValue = 0, duration = 440, easing = Easing_out Easing_cubic,
           useNativeDriver = True\<rparr> \<and>
   new_calls (run (mount shown) []) (step BackdropPress (run (mount shown) [])) =
     [Timing_start \<lparr>config = \<lparr>toValue = 0, duration = 220, easing = Easing_out Easing_cubic,
                               useNativeDriver = True\<rparr>,
                    callback = Hide_callback\<rparr>]"
proof -
  have v: "hm_rendered \<lparr>hm_rendered = True, hm_scale = 2\<rparr> \<and> visibleRef (mount shown)"
    by (simp add: mount_def commit_fields shown_def)
  have n: "new_calls (run (mount shown) []) (step BackdropPress (run (mount shown) [])) =
     [Timing_start \<lparr>config = \<lparr>toValue = 0, duration = 220, easing = Easing_out Easing_cubic,
                               useNativeDriver = True\<rparr>,
                    callback = Hide_callback\<rparr>]"
    by (simp add: new_calls_def model_defs)
  from C9_animation_parameters
    [of 2 "mount shown" "\<lparr>hm_rendered = True, hm_scale = 2\<rparr>" shown "[]" BackdropPress] v
  show ?thesis
    unfolding n by (auto split: option.splits)
qed

text \<open>
  C10. When the component is created, the animated opacity value is 1 if the initial
  visibility intent is true and 0 otherwise. A component mounted with the intent true
  starts its first show animation from the value 1 towards the value 1, and the value is
  1 again when that animation ends: the content is opaque from the first render on.
\<close>

theorem C10_initial_opacity:
  "current (opacity (mount p)) = Some (if visible p then 1 else 0) \<and>
   anim (opacity (mount p)) =
     (if visible p then
        Some \<lparr>config = \<lparr>toValue = 1, duration = scale p * 220,
                         easing = Easing_out Easing_cubic, useNativeDriver = True\<rparr>,
              callback = No_callback\<rparr>
      else None) \<and>
   (\<forall>r. current (opacity (animation_end r (mount p))) = Some (if visible p then 1 else 0))"
proof -
  have o: "opacity (mount p) =
      (if visible p then \<lparr>current = Some 1, anim = Some (show_animation (scale p))\<rparr>
       else \<lparr>current = Some 0, anim = None\<rparr>)"
    by (simp add: mount_def commit_fields shows_now_def interrupted_def)
  have "current (opacity (animation_end r (mount p))) = Some (if visible p then 1 else 0)" for r
  proof (cases "visible p")
    case True
    then have "anim (opacity (mount p)) = Some (show_animation (scale p))" by (simp add: o)
    from animation_end_show [OF this] show ?thesis
      using True by (simp add: show_animation_def)
  next
    case False
    then show ?thesis by (simp add: animation_end_def o)
  qed
  then show ?thesis by (simp add: o show_animation_def)
qed

theorem C10_initial_opacity_witness:
  "current (opacity (mount shown)) = Some 1 \<and>
   anim (opacity (mount shown)) =
     Some \<lparr>config = \<lparr>toValue = 1, duration = 220,
                      easing = Easing_out Easing_cubic, useNativeDriver = True\<rparr>,
           callback = No_callback\<rparr> \<and>
   current (opacity (animation_end None (mount shown))) = Some 1 \<and>
   current (opacity (mount hidden)) = Some 0 \<and>
   anim (opacity (mount hidden)) = None"
  using C10_initial_opacity [of shown] C10_initial_opacity [of hidden]
  by (simp add: shown_def hidden_def)

end
